theory Spec2Isabelle
  imports Complex_Main "HOL-Library.Multiset" "HOL-Library.Log_Nat"
begin

section \<open>Data model (src/types/subsidy.ts)\<close>

text \<open>
  Yen amounts, ages and incomes are JavaScript numbers that hold whole values; they are
  modelled as \<open>int\<close>. The only fractional arithmetic of the engine is in the medical
  subsidy (rates 0.2, 0.3, 1.0, 0.0), which is computed in doubles. An optional property
  \<open>p?: T\<close> is a \<open>T option\<close>. Descriptive properties that the engine never reads (name,
  category, description, metadata, multiChildCondition) are left out of the records.
\<close>

datatype Prefecture = Tokyo | Saitama | Chiba | Kanagawa

datatype SubsidyType =
  childbirth_support | childcare_allowance | medical_expense | school_lunch
  | childcare_fee | high_school_tuition | university_tuition | support_018 | other_type

datatype IncomeLimitType = limit_none | limit_single | limit_tiered

datatype Frequency = once | monthly | yearly

datatype BirthOrder = first_child | second_child | third_or_more

datatype BirthOrderCondition = order_is BirthOrder | order_any

datatype Amount = fixed int | variable

datatype error = TypeError | VariableInFixedCalculation | DataNotFound

record IncomeTier =
  tier_threshold :: int
  tier_amount :: int

record IncomeLimit =
  limit_type :: IncomeLimitType
  limit_threshold :: "int option"
  limit_tiers :: "IncomeTier list option"

record ChildCondition =
  cond_minAge :: "int option"
  cond_maxAge :: "int option"
  cond_birthOrder :: "BirthOrderCondition option"

record AgeBasedAmount =
  band_minAge :: int
  band_maxAge :: int
  band_amount :: int
  band_frequency :: Frequency

record Conditions =
  incomeLimit :: IncomeLimit
  childCondition :: ChildCondition

text \<open>
  \<open>Subsidy | VariableAmountSubsidy\<close>: one object shape at run time; \<open>ageBasedAmounts\<close> is
  present on a \<open>VariableAmountSubsidy\<close> and absent on a plain \<open>Subsidy\<close>.
\<close>

record Subsidy =
  subsidy_id :: string
  subsidy_type :: SubsidyType
  subsidy_prefecture :: Prefecture
  amount :: Amount
  frequency :: Frequency
  conditions :: Conditions
  ageBasedAmounts :: "AgeBasedAmount list option"

record PrefectureData =
  data_prefecture :: Prefecture
  policies :: "Subsidy list"

text \<open>The object \<open>subsidyData\<close> of src/data/index.ts; the four JSON catalogs are a parameter.\<close>

record SubsidyData =
  tokyo :: "PrefectureData option"
  saitama :: "PrefectureData option"
  chiba :: "PrefectureData option"
  kanagawa :: "PrefectureData option"

record ChildInfo =
  age :: int
  birthOrder :: BirthOrder

record CalculationInput =
  householdIncome :: int
  children :: "ChildInfo list"

record AgeRangeInfo =
  fromAge :: int
  toAge :: int
  years :: int

record AppliedPolicy =
  policy :: Subsidy
  calculatedAmount :: int
  yearsApplied :: int
  ageRange :: "AgeRangeInfo option"
  maxAmount :: "int option"
  receivedAmount :: "int option"

record CalculationResult =
  prefecture :: Prefecture
  appliedPolicies :: "AppliedPolicy list"
  totalAmount :: int
  totalMaxAmount :: int
  calculatedAt :: string
  rank :: int

text \<open>The anonymous result object \<open>{ amount, years, ageRange? }\<close> of the fixed calculators.\<close>

record FixedResult =
  result_amount :: int
  result_years :: int
  result_ageRange :: "AgeRangeInfo option"

record AgeMedicalCost =
  cost_age :: int
  annualCost :: int

section \<open>Helpers of the embedding\<close>

text \<open>\<open>x ?? d\<close> and destructuring defaults \<open>{ x = d }\<close>.\<close>

definition orDefault :: "'a option \<Rightarrow> 'a \<Rightarrow> 'a" where
  "orDefault v d = (case v of None \<Rightarrow> d | Some x \<Rightarrow> x)"

text \<open>\<open>Array.prototype.map\<close> with a callback that may throw: the first exception aborts.\<close>

fun mapE :: "('a \<Rightarrow> error + 'b) \<Rightarrow> 'a list \<Rightarrow> error + 'b list" where
  "mapE f [] = Inr []"
| "mapE f (x # xs) =
     (case f x of
        Inl e \<Rightarrow> Inl e
      | Inr y \<Rightarrow> (case mapE f xs of Inl e \<Rightarrow> Inl e | Inr ys \<Rightarrow> Inr (y # ys)))"

text \<open>\<open>let acc = ...; for (const x of xs) { body }\<close> with a body that may throw.\<close>

fun forEachE :: "('a \<Rightarrow> int \<Rightarrow> error + int) \<Rightarrow> 'a list \<Rightarrow> int \<Rightarrow> error + int" where
  "forEachE body [] acc = Inr acc"
| "forEachE body (x # xs) acc =
     (case body x acc of Inl e \<Rightarrow> Inl e | Inr t \<Rightarrow> forEachE body xs t)"

text \<open>
  \<open>for (const ageRange of subsidy.ageBasedAmounts) { body }\<close>: iterating an absent
  property throws a TypeError.
\<close>

definition forBands ::
  "AgeBasedAmount list option \<Rightarrow> (AgeBasedAmount \<Rightarrow> int \<Rightarrow> int) \<Rightarrow> int \<Rightarrow> error + int" where
  "forBands bands body acc =
     (case bands of None \<Rightarrow> Inl TypeError | Some bs \<Rightarrow> Inr (fold body bs acc))"

text \<open>\<open>Math.min(...xs)\<close> and \<open>Math.max(...xs)\<close> on a list the caller has checked to be non-empty.\<close>

fun mathMin :: "int list \<Rightarrow> int" where
  "mathMin [] = 0"
| "mathMin (x # xs) = fold min xs x"

fun mathMax :: "int list \<Rightarrow> int" where
  "mathMax [] = 0"
| "mathMax (x # xs) = fold max xs x"

text \<open>\<open>Math.round\<close>: nearest integer, a tie goes up.\<close>

definition mathRound :: "rat \<Rightarrow> int" where
  "mathRound x = \<lfloor>x + 1 / 2\<rfloor>"

section \<open>IEEE 754 double arithmetic\<close>

text \<open>
  A JavaScript number is an IEEE 754 binary64 value: zero, or \<open>m * 2 ^ e\<close> with a mantissa
  \<open>2 ^ 52 \<le> |m| < 2 ^ 53\<close>. The result of \<open>+\<close> or \<open>*\<close> on two doubles is the exact result
  rounded to the nearest double, a tie going to the even mantissa, and a decimal literal
  such as \<open>0.3\<close> denotes the double nearest to it. Doubles are modelled as the rationals
  they denote. Overflow to infinity and subnormal numbers are left out: yen amounts and
  the rates are far inside the normal range.
\<close>

text \<open>Nearest integer, a tie going to the even one.\<close>

definition roundEven :: "rat \<Rightarrow> int" where
  "roundEven x =
     (let f = \<lfloor>x\<rfloor> in
      if x - of_int f < 1 / 2 then f
      else if x - of_int f > 1 / 2 then f + 1
      else if even f then f else f + 1)"

text \<open>The binary exponent of a positive rational: \<open>2 ^ floorLog2 x \<le> x < 2 ^ (floorLog2 x + 1)\<close>.\<close>

definition floorLog2 :: "rat \<Rightarrow> int" where
  "floorLog2 x = (if 1 \<le> x then bitlen \<lfloor>x\<rfloor> - 1 else - bitlen (\<lceil>1 / x\<rceil> - 1))"

text \<open>The double nearest to a rational: 53 significant bits.\<close>

definition toDouble :: "rat \<Rightarrow> rat" where
  "toDouble x =
     (if x = 0 then 0
      else let ulp = 2 powi (floorLog2 \<bar>x\<bar> - 52)
           in sgn x * of_int (roundEven (\<bar>x\<bar> / ulp)) * ulp)"

definition addDouble :: "rat \<Rightarrow> rat \<Rightarrow> rat" where
  "addDouble x y = toDouble (x + y)"

definition mulDouble :: "rat \<Rightarrow> rat \<Rightarrow> rat" where
  "mulDouble x y = toDouble (x * y)"

section \<open>src/lib/utils.ts and src/lib/dataLoader.ts\<close>

definition calculateAmountByFrequency :: "int \<Rightarrow> Frequency \<Rightarrow> int" where
  "calculateAmountByFrequency amt freq =
     (case freq of once \<Rightarrow> amt | monthly \<Rightarrow> amt * 12 | yearly \<Rightarrow> amt)"

definition loadPrefectureData :: "SubsidyData \<Rightarrow> Prefecture \<Rightarrow> error + PrefectureData" where
  "loadPrefectureData sd p =
     (let d = (case p of Tokyo \<Rightarrow> tokyo sd | Saitama \<Rightarrow> saitama sd
                       | Chiba \<Rightarrow> chiba sd | Kanagawa \<Rightarrow> kanagawa sd)
      in case d of None \<Rightarrow> Inl DataNotFound | Some v \<Rightarrow> Inr v)"

definition getAllPrefectures :: "Prefecture list" where
  "getAllPrefectures = [Tokyo, Saitama, Chiba, Kanagawa]"

definition isVariableAmountSubsidy :: "Subsidy \<Rightarrow> bool" where
  "isVariableAmountSubsidy s = (amount s = variable)"

section \<open>Medical subsidy (calculateMedicalSubsidy.ts)\<close>

definition getAssistanceAge :: "Prefecture \<Rightarrow> int" where
  "getAssistanceAge p = (case p of Tokyo \<Rightarrow> 18 | Saitama \<Rightarrow> 18 | Chiba \<Rightarrow> 18 | Kanagawa \<Rightarrow> 18)"

text \<open>The literals \<open>1.0\<close> and \<open>0.0\<close> are doubles; \<open>0.2\<close> and \<open>0.3\<close> are rounded to one.\<close>

definition getAssistanceRate :: "Prefecture \<Rightarrow> rat" where
  "getAssistanceRate p = (case p of Tokyo \<Rightarrow> 1 | Saitama \<Rightarrow> 1 | Chiba \<Rightarrow> 1 | Kanagawa \<Rightarrow> 0)"

definition getSelfPaymentRate :: "int \<Rightarrow> rat" where
  "getSelfPaymentRate a = (if a \<le> 5 then toDouble (2 / 10) else toDouble (3 / 10))"

definition getMedicalCostByAge :: "AgeMedicalCost list \<Rightarrow> int \<Rightarrow> AgeMedicalCost option" where
  "getMedicalCostByAge data a = find (\<lambda>item. cost_age item = a) data"

text \<open>
  The \<open>for (let age = currentAge; age <= maxAge; age++)\<close> loop, with its accumulator. The
  two products and the sum are double operations.
\<close>

function medicalLoop :: "AgeMedicalCost list \<Rightarrow> Prefecture \<Rightarrow> int \<Rightarrow> int \<Rightarrow> rat \<Rightarrow> rat" where
  "medicalLoop data p maxAge a totalSubsidy =
     (if a \<le> maxAge then
        medicalLoop data p maxAge (a + 1)
          (case getMedicalCostByAge data a of
             None \<Rightarrow> totalSubsidy
           | Some medicalCost \<Rightarrow>
               (let selfPaymentRate = getSelfPaymentRate a;
                    selfPayment = mulDouble (of_int (annualCost medicalCost)) selfPaymentRate;
                    assistanceRate = getAssistanceRate p
                in addDouble totalSubsidy (mulDouble selfPayment assistanceRate)))
      else totalSubsidy)"
  by pat_completeness auto
termination
  by (relation "measure (\<lambda>(data, p, maxAge, a, t). nat (maxAge + 1 - a))") auto

declare medicalLoop.simps [simp del]

definition calculateMedicalSubsidy :: "AgeMedicalCost list \<Rightarrow> int \<Rightarrow> Prefecture \<Rightarrow> int" where
  "calculateMedicalSubsidy data currentAge p =
     (if currentAge < 0 \<or> currentAge > 18 then 0
      else let maxAge = getAssistanceAge p in
        if currentAge > maxAge then 0
        else mathRound (medicalLoop data p maxAge currentAge 0))"

section \<open>Age arithmetic and filters (calculator.ts)\<close>

definition CHILDCARE_ALLOWANCE_THIRD_CHILD_MONTHLY :: int where
  "CHILDCARE_ALLOWANCE_THIRD_CHILD_MONTHLY = 30000"

definition calculateYearsFromCurrentAge :: "int \<Rightarrow> int \<Rightarrow> int \<Rightarrow> int" where
  "calculateYearsFromCurrentAge currentAge minAge maxAge =
     (if currentAge > maxAge then 0
      else let startAge = max currentAge minAge in maxAge - startAge + 1)"

definition calculateAgeRangeInfo :: "int \<Rightarrow> int \<Rightarrow> int \<Rightarrow> AgeRangeInfo" where
  "calculateAgeRangeInfo currentAge minAge maxAge =
     \<lparr>fromAge = max currentAge minAge, toAge = maxAge,
      years = calculateYearsFromCurrentAge currentAge minAge maxAge\<rparr>"

definition checkTieredIncomeLimit :: "int \<Rightarrow> IncomeTier list option \<Rightarrow> bool" where
  "checkTieredIncomeLimit income tiers =
     (case tiers of
        None \<Rightarrow> False
      | Some ts \<Rightarrow> if ts = [] then False else list_ex (\<lambda>tier. income < tier_threshold tier) ts)"

text \<open>The callback of \<open>filterByIncomeLimit\<close>. A threshold of 0 is falsy, like an absent one.\<close>

definition incomeLimitCallback :: "int \<Rightarrow> Subsidy \<Rightarrow> bool" where
  "incomeLimitCallback income s =
     (let lim = incomeLimit (conditions s) in
      if limit_type lim = limit_none then True
      else if limit_type lim = limit_single \<and> limit_threshold lim \<noteq> None
              \<and> limit_threshold lim \<noteq> Some 0
        then income < the (limit_threshold lim)
      else if limit_type lim = limit_tiered then checkTieredIncomeLimit income (limit_tiers lim)
      else False)"

definition filterByIncomeLimit :: "Subsidy list \<Rightarrow> int \<Rightarrow> Subsidy list" where
  "filterByIncomeLimit subsidies income = filter (incomeLimitCallback income) subsidies"

definition matchesChildCondition :: "ChildInfo \<Rightarrow> ChildCondition \<Rightarrow> bool" where
  "matchesChildCondition child cond =
     (if (case cond_birthOrder cond of
            Some (order_is b) \<Rightarrow> b \<noteq> birthOrder child
          | _ \<Rightarrow> False)
      then False
      else let childMinAge = 0; childMaxAge = 18;
               policyMinAge = orDefault (cond_minAge cond) 0;
               policyMaxAge = orDefault (cond_maxAge cond) 18
           in if childMaxAge < policyMinAge \<or> childMinAge > policyMaxAge then False else True)"

definition filterByChildConditions :: "Subsidy list \<Rightarrow> ChildInfo list \<Rightarrow> Subsidy list" where
  "filterByChildConditions subsidies cs =
     filter (\<lambda>s. list_ex (\<lambda>child. matchesChildCondition child (childCondition (conditions s))) cs)
       subsidies"

text \<open>
  The birth-order-only callback that the maximum and received calculators repeat inline
  (\<open>if (birthOrder && birthOrder !== 'any') return birthOrder === child.birthOrder; return true\<close>).
\<close>

definition birthOrderCallback :: "Subsidy \<Rightarrow> ChildInfo \<Rightarrow> bool" where
  "birthOrderCallback s child =
     (case cond_birthOrder (childCondition (conditions s)) of
        Some (order_is b) \<Rightarrow> b = birthOrder child
      | _ \<Rightarrow> True)"

section \<open>Maximum entitlement (calculateMaxAmount and its helpers)\<close>

definition calculateMaxMedicalExpenseSubsidy ::
  "AgeMedicalCost list \<Rightarrow> Subsidy \<Rightarrow> ChildInfo list \<Rightarrow> int" where
  "calculateMaxMedicalExpenseSubsidy data s cs =
     (let eligibleChildren = filter (birthOrderCallback s) cs in
      if length eligibleChildren = 0 then 0
      else fold (\<lambda>child acc. acc + calculateMedicalSubsidy data 0 (subsidy_prefecture s))
             eligibleChildren 0)"

definition calculateMaxChildcareFeeSubsidy :: "Subsidy \<Rightarrow> ChildInfo list \<Rightarrow> int" where
  "calculateMaxChildcareFeeSubsidy s cs =
     (case amount s of
        variable \<Rightarrow> 0
      | fixed amt \<Rightarrow>
          (let eligibleChildren = filter (birthOrderCallback s) cs in
           if length eligibleChildren = 0 then 0
           else let minAge = orDefault (cond_minAge (childCondition (conditions s))) 0;
                    maxAge = orDefault (cond_maxAge (childCondition (conditions s))) 5;
                    annualAmount = calculateAmountByFrequency amt (frequency s);
                    yrs = maxAge - minAge + 1
                in annualAmount * yrs * int (length eligibleChildren)))"

definition calculateMaxHighSchoolTuition :: "Subsidy \<Rightarrow> ChildInfo list \<Rightarrow> int" where
  "calculateMaxHighSchoolTuition s cs =
     (case amount s of
        variable \<Rightarrow> 0
      | fixed amt \<Rightarrow>
          (let eligibleChildren = filter (birthOrderCallback s) cs in
           if length eligibleChildren = 0 then 0
           else let minAge = orDefault (cond_minAge (childCondition (conditions s))) 15;
                    maxAge = orDefault (cond_maxAge (childCondition (conditions s))) 18;
                    yrs = maxAge - minAge + 1;
                    lim = incomeLimit (conditions s);
                    amountPerYear =
                      (case (limit_type lim, limit_tiers lim) of
                         (limit_tiered, Some (tier0 # _)) \<Rightarrow> tier_amount tier0
                       | _ \<Rightarrow> calculateAmountByFrequency amt (frequency s))
                in amountPerYear * yrs * int (length eligibleChildren)))"

text \<open>Loop body of the variable branch of \<open>calculateMaxAmount\<close>, one age band.\<close>

definition maxBandBody :: "AgeBasedAmount \<Rightarrow> int \<Rightarrow> int" where
  "maxBandBody band acc =
     (let yrs = band_maxAge band - band_minAge band + 1;
          annualAmount = calculateAmountByFrequency (band_amount band) (band_frequency band)
      in acc + annualAmount * yrs)"

definition calculateMaxAmount :: "AgeMedicalCost list \<Rightarrow> Subsidy \<Rightarrow> ChildInfo list \<Rightarrow> error + int" where
  "calculateMaxAmount data s cs =
     (if isVariableAmountSubsidy s then
        forEachE (\<lambda>child acc.
            if subsidy_type s = childcare_allowance \<and> birthOrder child = third_or_more
            then (let annualAmount = CHILDCARE_ALLOWANCE_THIRD_CHILD_MONTHLY * 12
                  in Inr (acc + annualAmount * 19))
            else forBands (ageBasedAmounts s) maxBandBody acc)
          cs 0
      else
        (case amount s of
           variable \<Rightarrow> Inr 0
         | fixed amt \<Rightarrow>
             if subsidy_type s = medical_expense then Inr (calculateMaxMedicalExpenseSubsidy data s cs)
             else if subsidy_type s = childcare_fee then Inr (calculateMaxChildcareFeeSubsidy s cs)
             else if subsidy_type s = high_school_tuition then Inr (calculateMaxHighSchoolTuition s cs)
             else
               (let minAge = orDefault (cond_minAge (childCondition (conditions s))) 0;
                    maxAge = orDefault (cond_maxAge (childCondition (conditions s))) 18;
                    eligibleChildren = filter (birthOrderCallback s) cs
                in if length eligibleChildren = 0 then Inr 0
                   else let annualAmount = calculateAmountByFrequency amt (frequency s) in
                     if frequency s = once then Inr (annualAmount * int (length eligibleChildren))
                     else let yrs = maxAge - minAge + 1
                          in Inr (annualAmount * yrs * int (length eligibleChildren)))))"

section \<open>Received entitlement (calculateReceivedAmount and its helpers)\<close>

definition calculateReceivedMedicalExpenseSubsidy ::
  "AgeMedicalCost list \<Rightarrow> Subsidy \<Rightarrow> ChildInfo list \<Rightarrow> int" where
  "calculateReceivedMedicalExpenseSubsidy data s cs =
     (let eligibleChildren = filter (birthOrderCallback s) cs in
      if length eligibleChildren = 0 then 0
      else fold (\<lambda>child acc.
             if age child = 0 then acc
             else let maxSubsidy = calculateMedicalSubsidy data 0 (subsidy_prefecture s);
                      remainingSubsidy = calculateMedicalSubsidy data (age child) (subsidy_prefecture s);
                      received = maxSubsidy - remainingSubsidy
                  in acc + received)
             eligibleChildren 0)"

text \<open>
  Loop body shared, statement for statement, by the continuous branch of
  \<open>calculateReceivedAmount\<close> and by \<open>calculateReceivedChildcareFeeSubsidy\<close>.
\<close>

definition receivedChildBody :: "int \<Rightarrow> int \<Rightarrow> int \<Rightarrow> ChildInfo \<Rightarrow> int \<Rightarrow> int" where
  "receivedChildBody annualAmount minAge maxAge child acc =
     (if age child = 0 then acc
      else if age child > maxAge then (let yrs = maxAge - minAge + 1 in acc + annualAmount * yrs)
      else if age child > minAge then (let yrs = age child - minAge in acc + annualAmount * yrs)
      else acc)"

definition calculateReceivedChildcareFeeSubsidy :: "Subsidy \<Rightarrow> ChildInfo list \<Rightarrow> int" where
  "calculateReceivedChildcareFeeSubsidy s cs =
     (case amount s of
        variable \<Rightarrow> 0
      | fixed amt \<Rightarrow>
          (let eligibleChildren = filter (birthOrderCallback s) cs in
           if length eligibleChildren = 0 then 0
           else let minAge = orDefault (cond_minAge (childCondition (conditions s))) 0;
                    maxAge = orDefault (cond_maxAge (childCondition (conditions s))) 5;
                    annualAmount = calculateAmountByFrequency amt (frequency s)
                in fold (receivedChildBody annualAmount minAge maxAge) eligibleChildren 0))"

definition calculateReceivedHighSchoolTuition :: "Subsidy \<Rightarrow> ChildInfo list \<Rightarrow> int" where
  "calculateReceivedHighSchoolTuition s cs =
     (case amount s of
        variable \<Rightarrow> 0
      | fixed amt \<Rightarrow>
          (let eligibleChildren = filter (birthOrderCallback s) cs in
           if length eligibleChildren = 0 then 0
           else let minAge = orDefault (cond_minAge (childCondition (conditions s))) 15;
                    maxAge = orDefault (cond_maxAge (childCondition (conditions s))) 18;
                    lim = incomeLimit (conditions s);
                    amountPerYear =
                      (case (limit_type lim, limit_tiers lim) of
                         (limit_tiered, Some (tier0 # _)) \<Rightarrow> tier_amount tier0
                       | _ \<Rightarrow> calculateAmountByFrequency amt (frequency s))
                in fold (\<lambda>child acc.
                       if age child = 0 \<or> age child \<le> minAge then acc
                       else if age child > maxAge
                         then (let yrs = maxAge - minAge + 1 in acc + amountPerYear * yrs)
                       else (let yrs = age child - minAge in acc + amountPerYear * yrs))
                     eligibleChildren 0))"

text \<open>Loop body of the variable branch of \<open>calculateReceivedAmount\<close>, one age band.\<close>

definition receivedBandBody :: "ChildInfo \<Rightarrow> AgeBasedAmount \<Rightarrow> int \<Rightarrow> int" where
  "receivedBandBody child band acc =
     (if age child \<le> band_minAge band then acc
      else let receivedStartAge = band_minAge band;
               receivedEndAge = min (age child - 1) (band_maxAge band)
           in if receivedEndAge \<ge> receivedStartAge
              then (let yrs = receivedEndAge - receivedStartAge + 1;
                        annualAmount = calculateAmountByFrequency (band_amount band)
                                         (band_frequency band)
                    in acc + annualAmount * yrs)
              else acc)"

definition calculateReceivedAmount ::
  "AgeMedicalCost list \<Rightarrow> Subsidy \<Rightarrow> ChildInfo list \<Rightarrow> error + int" where
  "calculateReceivedAmount data s cs =
     (if isVariableAmountSubsidy s then
        forEachE (\<lambda>child acc.
            if age child = 0 then Inr acc
            else if subsidy_type s = childcare_allowance \<and> birthOrder child = third_or_more
            then (let annualAmount = CHILDCARE_ALLOWANCE_THIRD_CHILD_MONTHLY * 12
                  in Inr (acc + annualAmount * age child))
            else forBands (ageBasedAmounts s) (receivedBandBody child) acc)
          cs 0
      else
        (case amount s of
           variable \<Rightarrow> Inr 0
         | fixed amt \<Rightarrow>
             if subsidy_type s = medical_expense
               then Inr (calculateReceivedMedicalExpenseSubsidy data s cs)
             else if subsidy_type s = childcare_fee
               then Inr (calculateReceivedChildcareFeeSubsidy s cs)
             else if subsidy_type s = high_school_tuition
               then Inr (calculateReceivedHighSchoolTuition s cs)
             else
               (let minAge = orDefault (cond_minAge (childCondition (conditions s))) 0;
                    maxAge = orDefault (cond_maxAge (childCondition (conditions s))) 18;
                    eligibleChildren = filter (birthOrderCallback s) cs
                in if length eligibleChildren = 0 then Inr 0
                   else let annualAmount = calculateAmountByFrequency amt (frequency s) in
                     if frequency s = once
                     then (let receivedCount =
                                 int (length (filter (\<lambda>child. age child > maxAge) eligibleChildren))
                           in Inr (annualAmount * receivedCount))
                     else Inr (fold (receivedChildBody annualAmount minAge maxAge)
                                 eligibleChildren 0))))"

section \<open>Current entitlement (calculateFixedAmount, calculateVariableAmount, ...)\<close>

text \<open>Loop body of \<open>calculateVariableAmount\<close> and \<open>calculateChildcareAllowance\<close>, one age band.\<close>

definition remainingBandBody :: "ChildInfo \<Rightarrow> AgeBasedAmount \<Rightarrow> int \<Rightarrow> int" where
  "remainingBandBody child band acc =
     (let yrs = calculateYearsFromCurrentAge (age child) (band_minAge band) (band_maxAge band)
      in if yrs > 0
         then (let annualAmount = calculateAmountByFrequency (band_amount band) (band_frequency band)
               in acc + annualAmount * yrs)
         else acc)"

definition calculateVariableAmount :: "Subsidy \<Rightarrow> ChildInfo list \<Rightarrow> error + int" where
  "calculateVariableAmount s cs =
     forEachE (\<lambda>child acc. forBands (ageBasedAmounts s) (remainingBandBody child) acc) cs 0"

definition calculateChildcareAllowance :: "Subsidy \<Rightarrow> ChildInfo list \<Rightarrow> error + int" where
  "calculateChildcareAllowance s cs =
     forEachE (\<lambda>child acc.
         if birthOrder child = third_or_more
         then (let yrs = calculateYearsFromCurrentAge (age child) 0 18;
                   annualAmount = CHILDCARE_ALLOWANCE_THIRD_CHILD_MONTHLY * 12
               in Inr (acc + annualAmount * yrs))
         else forBands (ageBasedAmounts s) (remainingBandBody child) acc)
       cs 0"

definition calculateMedicalExpenseSubsidy ::
  "AgeMedicalCost list \<Rightarrow> Subsidy \<Rightarrow> CalculationInput \<Rightarrow> FixedResult" where
  "calculateMedicalExpenseSubsidy data s input =
     (let eligibleChildren =
            filter (\<lambda>child. matchesChildCondition child (childCondition (conditions s)))
              (children input)
      in case eligibleChildren of
           [] \<Rightarrow> \<lparr>result_amount = 0, result_years = 0, result_ageRange = None\<rparr>
         | child0 # _ \<Rightarrow>
             (let totalAmount' =
                    fold (\<lambda>child acc. acc + calculateMedicalSubsidy data (age child) (subsidy_prefecture s))
                      eligibleChildren 0;
                  minAge = orDefault (cond_minAge (childCondition (conditions s))) 0;
                  maxAge = orDefault (cond_maxAge (childCondition (conditions s))) 18;
                  range = calculateAgeRangeInfo (age child0) minAge maxAge
              in \<lparr>result_amount = totalAmount', result_years = years range,
                  result_ageRange = Some range\<rparr>))"

text \<open>
  Loop body shared by \<open>calculateChildcareFeeSubsidy\<close> and \<open>calculateHighSchoolTuition\<close>;
  the accumulator is the pair (total, maxYears).
\<close>

definition remainingChildBody :: "int \<Rightarrow> int \<Rightarrow> int \<Rightarrow> ChildInfo \<Rightarrow> int \<times> int \<Rightarrow> int \<times> int" where
  "remainingChildBody perYear minAge maxAge child acc =
     (let yrs = calculateYearsFromCurrentAge (age child) minAge maxAge
      in if yrs > 0 then (fst acc + perYear * yrs, max (snd acc) yrs) else acc)"

definition calculateChildcareFeeSubsidy :: "Subsidy \<Rightarrow> CalculationInput \<Rightarrow> error + FixedResult" where
  "calculateChildcareFeeSubsidy s input =
     (case amount s of
        variable \<Rightarrow> Inl VariableInFixedCalculation
      | fixed amt \<Rightarrow>
          (let eligibleChildren =
                 filter (\<lambda>child. matchesChildCondition child (childCondition (conditions s)))
                   (children input)
           in case eligibleChildren of
                [] \<Rightarrow> Inr \<lparr>result_amount = 0, result_years = 0, result_ageRange = None\<rparr>
              | child0 # _ \<Rightarrow>
                  (let minAge = orDefault (cond_minAge (childCondition (conditions s))) 0;
                       maxAge = orDefault (cond_maxAge (childCondition (conditions s))) 5;
                       annualAmount = calculateAmountByFrequency amt (frequency s);
                       acc = fold (remainingChildBody annualAmount minAge maxAge) eligibleChildren (0, 0)
                   in Inr \<lparr>result_amount = fst acc, result_years = snd acc,
                           result_ageRange = Some (calculateAgeRangeInfo (age child0) minAge maxAge)\<rparr>)))"

definition calculateHighSchoolTuition :: "Subsidy \<Rightarrow> CalculationInput \<Rightarrow> error + FixedResult" where
  "calculateHighSchoolTuition s input =
     (case amount s of
        variable \<Rightarrow> Inl VariableInFixedCalculation
      | fixed amt \<Rightarrow>
          (let lim = incomeLimit (conditions s);
               cond = childCondition (conditions s);
               eligibleChildren = filter (\<lambda>child. matchesChildCondition child cond) (children input)
           in case eligibleChildren of
                [] \<Rightarrow> Inr \<lparr>result_amount = 0, result_years = 0, result_ageRange = None\<rparr>
              | child0 # _ \<Rightarrow>
                  (let amountPerYear =
                         (case (limit_type lim, limit_tiers lim) of
                            (limit_tiered, Some tiers) \<Rightarrow>
                              (case find (\<lambda>t. householdIncome input < tier_threshold t) tiers of
                                 Some tier \<Rightarrow> tier_amount tier
                               | None \<Rightarrow> 0)
                          | _ \<Rightarrow> calculateAmountByFrequency amt (frequency s));
                       minAge = orDefault (cond_minAge cond) 15;
                       maxAge = orDefault (cond_maxAge cond) 18;
                       acc = fold (remainingChildBody amountPerYear minAge maxAge) eligibleChildren (0, 0)
                   in Inr \<lparr>result_amount = fst acc, result_years = snd acc,
                           result_ageRange = Some (calculateAgeRangeInfo (age child0) minAge maxAge)\<rparr>)))"

text \<open>Loop body of the general case of \<open>calculateFixedAmount\<close>; a one-time grant counts once.\<close>

definition fixedChildBody ::
  "Frequency \<Rightarrow> int \<Rightarrow> int \<Rightarrow> int \<Rightarrow> ChildInfo \<Rightarrow> int \<times> int \<Rightarrow> int \<times> int" where
  "fixedChildBody freq annualAmount minAge maxAge child acc =
     (let yrs = calculateYearsFromCurrentAge (age child) minAge maxAge
      in if yrs > 0
         then (if freq = once then (fst acc + annualAmount, max (snd acc) 1)
               else (fst acc + annualAmount * yrs, max (snd acc) yrs))
         else acc)"

definition calculateFixedAmount ::
  "AgeMedicalCost list \<Rightarrow> Subsidy \<Rightarrow> CalculationInput \<Rightarrow> error + FixedResult" where
  "calculateFixedAmount data s input =
     (case amount s of
        variable \<Rightarrow> Inl VariableInFixedCalculation
      | fixed amt \<Rightarrow>
          if subsidy_type s = medical_expense then Inr (calculateMedicalExpenseSubsidy data s input)
          else if subsidy_type s = childcare_fee then calculateChildcareFeeSubsidy s input
          else if subsidy_type s = high_school_tuition then calculateHighSchoolTuition s input
          else
            (let eligibleChildren =
                   filter (\<lambda>child. matchesChildCondition child (childCondition (conditions s)))
                     (children input)
             in case eligibleChildren of
                  [] \<Rightarrow> Inr \<lparr>result_amount = 0, result_years = 0, result_ageRange = None\<rparr>
                | child0 # _ \<Rightarrow>
                    (let minAge = orDefault (cond_minAge (childCondition (conditions s))) 0;
                         maxAge = orDefault (cond_maxAge (childCondition (conditions s))) 18;
                         annualAmount = calculateAmountByFrequency amt (frequency s);
                         acc = fold (fixedChildBody (frequency s) annualAmount minAge maxAge)
                                 eligibleChildren (0, 0)
                     in Inr \<lparr>result_amount = fst acc, result_years = snd acc,
                             result_ageRange =
                               Some (calculateAgeRangeInfo (age child0) minAge maxAge)\<rparr>)))"

section \<open>Aggregation and ranking\<close>

definition calculateSubsidyAmount ::
  "AgeMedicalCost list \<Rightarrow> Subsidy \<Rightarrow> CalculationInput \<Rightarrow> error + AppliedPolicy" where
  "calculateSubsidyAmount data s input =
     (case
        (if isVariableAmountSubsidy s then
           (case (if subsidy_type s = childcare_allowance
                  then calculateChildcareAllowance s (children input)
                  else calculateVariableAmount s (children input)) of
              Inl e \<Rightarrow> Inl e
            | Inr totalAmount' \<Rightarrow>
                (case children input of
                   [] \<Rightarrow> Inr \<lparr>result_amount = totalAmount', result_years = 0, result_ageRange = None\<rparr>
                 | child # _ \<Rightarrow>
                     (case ageBasedAmounts s of
                        None \<Rightarrow> Inl TypeError
                      | Some bands \<Rightarrow>
                          if length bands > 0
                          then (let minAge = mathMin (map band_minAge bands);
                                    maxAge = mathMax (map band_maxAge bands);
                                    range = calculateAgeRangeInfo (age child) minAge maxAge
                                in Inr \<lparr>result_amount = totalAmount', result_years = years range,
                                        result_ageRange = Some range\<rparr>)
                          else Inr \<lparr>result_amount = totalAmount', result_years = 0,
                                    result_ageRange = None\<rparr>)))
         else calculateFixedAmount data s input) of
        Inl e \<Rightarrow> Inl e
      | Inr res \<Rightarrow>
          (case calculateMaxAmount data s (children input) of
             Inl e \<Rightarrow> Inl e
           | Inr maxAmount' \<Rightarrow>
               (case calculateReceivedAmount data s (children input) of
                  Inl e \<Rightarrow> Inl e
                | Inr receivedAmount' \<Rightarrow>
                    Inr \<lparr>policy = s, calculatedAmount = result_amount res,
                         yearsApplied = result_years res, ageRange = result_ageRange res,
                         maxAmount = Some maxAmount', receivedAmount = Some receivedAmount'\<rparr>)))"

text \<open>
  \<open>now\<close> is the value that \<open>new Date().toISOString()\<close> yields during the call.
\<close>

definition calculateSubsidies ::
  "SubsidyData \<Rightarrow> AgeMedicalCost list \<Rightarrow> string \<Rightarrow> Prefecture \<Rightarrow> CalculationInput
     \<Rightarrow> error + CalculationResult" where
  "calculateSubsidies sd data now p input =
     (case loadPrefectureData sd p of
        Inl e \<Rightarrow> Inl e
      | Inr d \<Rightarrow>
          (let eligibleSubsidies = filterByIncomeLimit (policies d) (householdIncome input);
               applicableSubsidies = filterByChildConditions eligibleSubsidies (children input)
           in case mapE (\<lambda>s. calculateSubsidyAmount data s input) applicableSubsidies of
                Inl e \<Rightarrow> Inl e
              | Inr applied \<Rightarrow>
                  (let totalAmount' = fold (\<lambda>ap acc. acc + calculatedAmount ap) applied 0;
                       totalMaxAmount' =
                         fold (\<lambda>ap acc. acc + orDefault (maxAmount ap) (calculatedAmount ap)) applied 0
                   in Inr \<lparr>prefecture = p, appliedPolicies = applied, totalAmount = totalAmount',
                           totalMaxAmount = totalMaxAmount', calculatedAt = now, rank = 0\<rparr>)))"

text \<open>
  \<open>results.sort((a, b) => b.totalAmount - a.totalAmount)\<close> is a stable sort, descending in
  \<open>totalAmount\<close>: \<open>sort_key\<close> on the negated total. \<open>clock p\<close> is the time stamp read during
  the call for prefecture \<open>p\<close>.
\<close>

definition calculateAllSubsidies ::
  "SubsidyData \<Rightarrow> AgeMedicalCost list \<Rightarrow> (Prefecture \<Rightarrow> string) \<Rightarrow> CalculationInput
     \<Rightarrow> error + CalculationResult list" where
  "calculateAllSubsidies sd data clock input =
     (let prefectures = getAllPrefectures in
      case mapE (\<lambda>p. calculateSubsidies sd data (clock p) p input) prefectures of
        Inl e \<Rightarrow> Inl e
      | Inr results \<Rightarrow>
          Inr (map (\<lambda>(index, result). result\<lparr>rank := int index + 1\<rparr>)
                 (enumerate 0 (sort_key (\<lambda>r. - totalAmount r) results))))"

section \<open>Catalog well-formedness\<close>

text \<open>
  The data-model invariant of the catalog: a policy whose amount is the sentinel
  \<open>variable\<close> carries its list of age bands, and every prefecture has its data.
\<close>

definition wellFormedSubsidy :: "Subsidy \<Rightarrow> bool" where
  "wellFormedSubsidy s = (amount s = variable \<longrightarrow> ageBasedAmounts s \<noteq> None)"

definition wellFormedCatalog :: "SubsidyData \<Rightarrow> bool" where
  "wellFormedCatalog sd =
     list_all (\<lambda>p. case loadPrefectureData sd p of
                     Inl e \<Rightarrow> False
                   | Inr d \<Rightarrow> list_all wellFormedSubsidy (policies d)) getAllPrefectures"

text \<open>The age bands of a policy; none when the property is absent.\<close>

definition bandsOf :: "Subsidy \<Rightarrow> AgeBasedAmount list" where
  "bandsOf s = orDefault (ageBasedAmounts s) []"

text \<open>Subsidy amounts and medical costs are not negative.\<close>

definition nonNegativeSubsidy :: "Subsidy \<Rightarrow> bool" where
  "nonNegativeSubsidy s =
     ((case amount s of fixed amt \<Rightarrow> 0 \<le> amt | variable \<Rightarrow> True)
      \<and> list_all (\<lambda>b. 0 \<le> band_amount b) (bandsOf s)
      \<and> list_all (\<lambda>t. 0 \<le> tier_amount t) (orDefault (limit_tiers (incomeLimit (conditions s))) []))"

definition nonNegativeCatalog :: "SubsidyData \<Rightarrow> bool" where
  "nonNegativeCatalog sd =
     list_all (\<lambda>p. case loadPrefectureData sd p of
                     Inl e \<Rightarrow> True
                   | Inr d \<Rightarrow> list_all nonNegativeSubsidy (policies d)) getAllPrefectures"

definition nonNegativeCosts :: "AgeMedicalCost list \<Rightarrow> bool" where
  "nonNegativeCosts data = list_all (\<lambda>item. 0 \<le> annualCost item) data"

section \<open>What one child contributes\<close>

text \<open>
  The calculators accumulate over the children (and over the age bands). The functions
  of this section name what one child adds to each of the three amounts; the lemmas
  \<open>calculateMaxAmount_sum\<close>, \<open>calculateReceivedAmount_sum\<close> and
  \<open>calculateSubsidyAmount_sum\<close> below prove that the loops of the engine compute
  exactly these sums.
\<close>

definition bandAnnual :: "AgeBasedAmount \<Rightarrow> int" where
  "bandAnnual b = calculateAmountByFrequency (band_amount b) (band_frequency b)"

definition yearsCounted :: "int \<Rightarrow> int \<Rightarrow> int \<Rightarrow> int" where
  "yearsCounted a m M = max 0 (calculateYearsFromCurrentAge a m M)"

definition yearsReceived :: "int \<Rightarrow> int \<Rightarrow> int \<Rightarrow> int" where
  "yearsReceived a m M =
     (if a = 0 then 0 else if a > M then M - m + 1 else if a > m then a - m else 0)"

definition tuitionYearsReceived :: "int \<Rightarrow> int \<Rightarrow> int \<Rightarrow> int" where
  "tuitionYearsReceived a m M =
     (if a = 0 \<or> a \<le> m then 0 else if a > M then M - m + 1 else a - m)"

definition bandYearsReceived :: "int \<Rightarrow> AgeBasedAmount \<Rightarrow> int" where
  "bandYearsReceived a b =
     (if a \<le> band_minAge b then 0
      else if min (a - 1) (band_maxAge b) \<ge> band_minAge b
        then min (a - 1) (band_maxAge b) - band_minAge b + 1 else 0)"

definition annualOf :: "Subsidy \<Rightarrow> int" where
  "annualOf s = (case amount s of fixed amt \<Rightarrow> calculateAmountByFrequency amt (frequency s)
                 | variable \<Rightarrow> 0)"

definition minAgeOf :: "Subsidy \<Rightarrow> int" where
  "minAgeOf s = orDefault (cond_minAge (childCondition (conditions s)))
                  (if subsidy_type s = high_school_tuition then 15 else 0)"

definition maxAgeOf :: "Subsidy \<Rightarrow> int" where
  "maxAgeOf s = orDefault (cond_maxAge (childCondition (conditions s)))
                  (if subsidy_type s = childcare_fee then 5 else 18)"

definition tuitionCurrentRate :: "Subsidy \<Rightarrow> int \<Rightarrow> int" where
  "tuitionCurrentRate s income =
     (case (limit_type (incomeLimit (conditions s)), limit_tiers (incomeLimit (conditions s))) of
        (limit_tiered, Some tiers) \<Rightarrow>
          (case find (\<lambda>t. income < tier_threshold t) tiers of
             Some tier \<Rightarrow> tier_amount tier | None \<Rightarrow> 0)
      | _ \<Rightarrow> annualOf s)"

definition tuitionCeilingRate :: "Subsidy \<Rightarrow> int" where
  "tuitionCeilingRate s =
     (case (limit_type (incomeLimit (conditions s)), limit_tiers (incomeLimit (conditions s))) of
        (limit_tiered, Some (tier0 # _)) \<Rightarrow> tier_amount tier0
      | _ \<Rightarrow> annualOf s)"

definition currentPerChild :: "AgeMedicalCost list \<Rightarrow> Subsidy \<Rightarrow> int \<Rightarrow> ChildInfo \<Rightarrow> int" where
  "currentPerChild data s income c =
     (if amount s = variable then
        (if subsidy_type s = childcare_allowance \<and> birthOrder c = third_or_more
         then 360000 * calculateYearsFromCurrentAge (age c) 0 18
         else (\<Sum>b\<leftarrow>bandsOf s. bandAnnual b * yearsCounted (age c) (band_minAge b) (band_maxAge b)))
      else if subsidy_type s = medical_expense
        then calculateMedicalSubsidy data (age c) (subsidy_prefecture s)
      else if subsidy_type s = childcare_fee
        then annualOf s * yearsCounted (age c) (minAgeOf s) (maxAgeOf s)
      else if subsidy_type s = high_school_tuition
        then tuitionCurrentRate s income * yearsCounted (age c) (minAgeOf s) (maxAgeOf s)
      else if frequency s = once
        then (if calculateYearsFromCurrentAge (age c) (minAgeOf s) (maxAgeOf s) > 0
              then annualOf s else 0)
      else annualOf s * yearsCounted (age c) (minAgeOf s) (maxAgeOf s))"

definition ceilingPerChild :: "AgeMedicalCost list \<Rightarrow> Subsidy \<Rightarrow> ChildInfo \<Rightarrow> int" where
  "ceilingPerChild data s c =
     (if amount s = variable then
        (if subsidy_type s = childcare_allowance \<and> birthOrder c = third_or_more
         then 360000 * 19
         else (\<Sum>b\<leftarrow>bandsOf s. bandAnnual b * (band_maxAge b - band_minAge b + 1)))
      else if subsidy_type s = medical_expense
        then calculateMedicalSubsidy data 0 (subsidy_prefecture s)
      else if subsidy_type s = childcare_fee
        then annualOf s * (maxAgeOf s - minAgeOf s + 1)
      else if subsidy_type s = high_school_tuition
        then tuitionCeilingRate s * (maxAgeOf s - minAgeOf s + 1)
      else if frequency s = once then annualOf s
      else annualOf s * (maxAgeOf s - minAgeOf s + 1))"

definition receivedPerChild :: "AgeMedicalCost list \<Rightarrow> Subsidy \<Rightarrow> ChildInfo \<Rightarrow> int" where
  "receivedPerChild data s c =
     (if amount s = variable then
        (if age c = 0 then 0
         else if subsidy_type s = childcare_allowance \<and> birthOrder c = third_or_more
         then 360000 * age c
         else (\<Sum>b\<leftarrow>bandsOf s. bandAnnual b * bandYearsReceived (age c) b))
      else if subsidy_type s = medical_expense
        then (if age c = 0 then 0
              else calculateMedicalSubsidy data 0 (subsidy_prefecture s)
                   - calculateMedicalSubsidy data (age c) (subsidy_prefecture s))
      else if subsidy_type s = childcare_fee
        then annualOf s * yearsReceived (age c) (minAgeOf s) (maxAgeOf s)
      else if subsidy_type s = high_school_tuition
        then tuitionCeilingRate s * tuitionYearsReceived (age c) (minAgeOf s) (maxAgeOf s)
      else if frequency s = once then (if age c > maxAgeOf s then annualOf s else 0)
      else annualOf s * yearsReceived (age c) (minAgeOf s) (maxAgeOf s))"

definition currentEligible :: "Subsidy \<Rightarrow> ChildInfo list \<Rightarrow> ChildInfo list" where
  "currentEligible s cs =
     (if amount s = variable then cs
      else filter (\<lambda>child. matchesChildCondition child (childCondition (conditions s))) cs)"

definition ceilingEligible :: "Subsidy \<Rightarrow> ChildInfo list \<Rightarrow> ChildInfo list" where
  "ceilingEligible s cs =
     (if amount s = variable then cs else filter (birthOrderCallback s) cs)"

text \<open>
  Side conditions on a policy: its age band (each of its age bands) is an interval; the
  interval does not start before birth; and, for a high-school tuition policy with a
  tiered income limit, the household income is below the threshold of the first tier.
\<close>

definition orderedBands :: "Subsidy \<Rightarrow> bool" where
  "orderedBands s =
     (if amount s = variable then list_all (\<lambda>b. band_minAge b \<le> band_maxAge b) (bandsOf s)
      else subsidy_type s = medical_expense \<or> minAgeOf s \<le> maxAgeOf s)"

definition bandsFromBirth :: "Subsidy \<Rightarrow> bool" where
  "bandsFromBirth s =
     (if amount s = variable
      then list_all (\<lambda>b. 0 \<le> band_minAge b \<and> band_minAge b \<le> band_maxAge b) (bandsOf s)
      else subsidy_type s = medical_expense \<or> (0 \<le> minAgeOf s \<and> minAgeOf s \<le> maxAgeOf s))"

definition firstTierApplies :: "Subsidy \<Rightarrow> int \<Rightarrow> bool" where
  "firstTierApplies s income =
     (if amount s \<noteq> variable \<and> subsidy_type s = high_school_tuition
         \<and> limit_type (incomeLimit (conditions s)) = limit_tiered
      then (case limit_tiers (incomeLimit (conditions s)) of
              Some (tier0 # _) \<Rightarrow> income < tier_threshold tier0
            | _ \<Rightarrow> False)
      else True)"

section \<open>The body of the medical loop\<close>

text \<open>One pass through the body of the loop of \<open>calculateMedicalSubsidy\<close>.\<close>

definition medicalStep :: "AgeMedicalCost list \<Rightarrow> Prefecture \<Rightarrow> int \<Rightarrow> rat \<Rightarrow> rat" where
  "medicalStep data p a t =
     (case getMedicalCostByAge data a of
        None \<Rightarrow> t
      | Some medicalCost \<Rightarrow>
          addDouble t (mulDouble (mulDouble (of_int (annualCost medicalCost)) (getSelfPaymentRate a))
                                 (getAssistanceRate p)))"

section \<open>The medical subsidy as the specification words it\<close>

text \<open>
  The annual cost at an age (an age without statistics costs nothing), the self-pay rate of
  20% up to age 5 and 30% from age 6, the exact sum from the current age to the
  assistance ceiling of the prefecture, and that sum rounded to the nearest integer, a
  tie going up as \<open>Math.round\<close> has it.
\<close>

definition annualMedicalCost :: "AgeMedicalCost list \<Rightarrow> int \<Rightarrow> rat" where
  "annualMedicalCost data a =
     (case getMedicalCostByAge data a of None \<Rightarrow> 0 | Some item \<Rightarrow> of_int (annualCost item))"

definition selfPayRate :: "int \<Rightarrow> rat" where
  "selfPayRate a = (if a \<le> 5 then 20 / 100 else 30 / 100)"

definition medicalSum :: "AgeMedicalCost list \<Rightarrow> int \<Rightarrow> Prefecture \<Rightarrow> rat" where
  "medicalSum data currentAge p =
     (\<Sum>a = currentAge..getAssistanceAge p.
        annualMedicalCost data a * selfPayRate a * getAssistanceRate p)"

definition medicalSubsidyFormula :: "AgeMedicalCost list \<Rightarrow> int \<Rightarrow> Prefecture \<Rightarrow> int" where
  "medicalSubsidyFormula data currentAge p = round (medicalSum data currentAge p)"

text \<open>Annual costs between 0 and a billion yen.\<close>

definition boundedCosts :: "AgeMedicalCost list \<Rightarrow> bool" where
  "boundedCosts data = list_all (\<lambda>item. 0 \<le> annualCost item \<and> annualCost item \<le> 1000000000) data"

section \<open>Example data\<close>

text \<open>
  A small catalog: a monthly flat benefit and the medical subsidy in Tokyo, a high-school
  tuition policy with two income tiers in Saitama (after the example in subsidy.ts), an
  age-banded child allowance in Chiba and a one-time birth grant in Kanagawa.
\<close>

definition supportPolicy :: Subsidy where
  "supportPolicy =
     \<lparr>subsidy_id = ''tokyo_018_support'', subsidy_type = support_018,
      subsidy_prefecture = Tokyo, amount = fixed 5000, frequency = monthly,
      conditions =
        \<lparr>incomeLimit = \<lparr>limit_type = limit_none, limit_threshold = None, limit_tiers = None\<rparr>,
         childCondition =
           \<lparr>cond_minAge = Some 0, cond_maxAge = Some 18, cond_birthOrder = Some order_any\<rparr>\<rparr>,
      ageBasedAmounts = None\<rparr>"

definition medicalPolicy :: Subsidy where
  "medicalPolicy =
     \<lparr>subsidy_id = ''tokyo_medical'', subsidy_type = medical_expense,
      subsidy_prefecture = Tokyo, amount = fixed 0, frequency = yearly,
      conditions =
        \<lparr>incomeLimit = \<lparr>limit_type = limit_none, limit_threshold = None, limit_tiers = None\<rparr>,
         childCondition =
           \<lparr>cond_minAge = None, cond_maxAge = None, cond_birthOrder = None\<rparr>\<rparr>,
      ageBasedAmounts = None\<rparr>"

definition tuitionPolicy :: Subsidy where
  "tuitionPolicy =
     \<lparr>subsidy_id = ''saitama_high_school'', subsidy_type = high_school_tuition,
      subsidy_prefecture = Saitama, amount = fixed 118800, frequency = yearly,
      conditions =
        \<lparr>incomeLimit =
           \<lparr>limit_type = limit_tiered, limit_threshold = None,
            limit_tiers = Some [\<lparr>tier_threshold = 5000000, tier_amount = 200000\<rparr>,
                                \<lparr>tier_threshold = 5900000, tier_amount = 14000\<rparr>]\<rparr>,
         childCondition =
           \<lparr>cond_minAge = Some 15, cond_maxAge = Some 18, cond_birthOrder = Some order_any\<rparr>\<rparr>,
      ageBasedAmounts = None\<rparr>"

definition allowancePolicy :: Subsidy where
  "allowancePolicy =
     \<lparr>subsidy_id = ''chiba_child_allowance'', subsidy_type = childcare_allowance,
      subsidy_prefecture = Chiba, amount = variable, frequency = monthly,
      conditions =
        \<lparr>incomeLimit = \<lparr>limit_type = limit_none, limit_threshold = None, limit_tiers = None\<rparr>,
         childCondition =
           \<lparr>cond_minAge = Some 0, cond_maxAge = Some 18, cond_birthOrder = Some order_any\<rparr>\<rparr>,
      ageBasedAmounts =
        Some [\<lparr>band_minAge = 0, band_maxAge = 2, band_amount = 15000, band_frequency = monthly\<rparr>,
              \<lparr>band_minAge = 3, band_maxAge = 18, band_amount = 10000, band_frequency = monthly\<rparr>]\<rparr>"

definition grantPolicy :: Subsidy where
  "grantPolicy =
     \<lparr>subsidy_id = ''kanagawa_birth_grant'', subsidy_type = childbirth_support,
      subsidy_prefecture = Kanagawa, amount = fixed 100000, frequency = once,
      conditions =
        \<lparr>incomeLimit = \<lparr>limit_type = limit_single, limit_threshold = Some 9100000, limit_tiers = None\<rparr>,
         childCondition =
           \<lparr>cond_minAge = Some 0, cond_maxAge = Some 0, cond_birthOrder = None\<rparr>\<rparr>,
      ageBasedAmounts = None\<rparr>"

definition emptyTiersPolicy :: Subsidy where
  "emptyTiersPolicy =
     tuitionPolicy\<lparr>conditions :=
       \<lparr>incomeLimit = \<lparr>limit_type = limit_tiered, limit_threshold = None, limit_tiers = Some []\<rparr>,
        childCondition = childCondition (conditions tuitionPolicy)\<rparr>\<rparr>"


definition exampleCatalog :: SubsidyData where
  "exampleCatalog =
     \<lparr>tokyo = Some \<lparr>data_prefecture = Tokyo, policies = [supportPolicy, medicalPolicy]\<rparr>,
      saitama = Some \<lparr>data_prefecture = Saitama, policies = [tuitionPolicy]\<rparr>,
      chiba = Some \<lparr>data_prefecture = Chiba, policies = [allowancePolicy]\<rparr>,
      kanagawa = Some \<lparr>data_prefecture = Kanagawa, policies = [grantPolicy]\<rparr>\<rparr>"


definition exampleCosts :: "AgeMedicalCost list" where
  "exampleCosts = [\<lparr>cost_age = 0, annualCost = 250000\<rparr>, \<lparr>cost_age = 5, annualCost = 120004\<rparr>,
                   \<lparr>cost_age = 18, annualCost = 65000\<rparr>]"

definition splitCosts :: "AgeMedicalCost list" where
  "splitCosts = [\<lparr>cost_age = 6, annualCost = 1\<rparr>, \<lparr>cost_age = 7, annualCost = 24\<rparr>]"

definition singleCosts :: "AgeMedicalCost list" where
  "singleCosts = [\<lparr>cost_age = 6, annualCost = 25\<rparr>]"

definition teenCosts :: "AgeMedicalCost list" where
  "teenCosts = [\<lparr>cost_age = 16, annualCost = 69843\<rparr>, \<lparr>cost_age = 17, annualCost = 75095\<rparr>,
                \<lparr>cost_age = 18, annualCost = 63487\<rparr>]"

definition exampleInput :: "int \<Rightarrow> CalculationInput" where
  "exampleInput a =
     \<lparr>householdIncome = 5500000, children = [\<lparr>age = a, birthOrder = first_child\<rparr>]\<rparr>"

text \<open>The applied policies that the engine returns on the examples.\<close>

definition tuitionApplied :: AppliedPolicy where
  "tuitionApplied =
     \<lparr>policy = tuitionPolicy, calculatedAmount = 56000, yearsApplied = 4,
      ageRange = Some \<lparr>fromAge = 15, toAge = 18, years = 4\<rparr>,
      maxAmount = Some 800000, receivedAmount = Some 0\<rparr>"

definition allowanceApplied :: AppliedPolicy where
  "allowanceApplied =
     \<lparr>policy = allowancePolicy, calculatedAmount = 1680000, yearsApplied = 14,
      ageRange = Some \<lparr>fromAge = 5, toAge = 18, years = 14\<rparr>,
      maxAmount = Some 2460000, receivedAmount = Some 780000\<rparr>"

definition grantApplied :: AppliedPolicy where
  "grantApplied =
     \<lparr>policy = grantPolicy, calculatedAmount = 100000, yearsApplied = 1,
      ageRange = Some \<lparr>fromAge = 0, toAge = 0, years = 1\<rparr>,
      maxAmount = Some 100000, receivedAmount = Some 0\<rparr>"

definition grantAppliedLater :: AppliedPolicy where
  "grantAppliedLater =
     \<lparr>policy = grantPolicy, calculatedAmount = 0, yearsApplied = 0,
      ageRange = Some \<lparr>fromAge = 5, toAge = 0, years = 0\<rparr>,
      maxAmount = Some 100000, receivedAmount = Some 100000\<rparr>"

section \<open>Basic lemmas about the loops\<close>

lemma fold_add:
  "(\<And>x a. x \<in> set xs \<Longrightarrow> f x a = a + g x) \<Longrightarrow> fold f xs acc = acc + sum_list (map g xs)"
  by (induction xs arbitrary: acc) (simp_all add: add.assoc)

lemma fold_pair_add:
  "(\<And>x a. x \<in> set xs \<Longrightarrow> fst (f x a) = fst a + g x)
     \<Longrightarrow> fst (fold f xs acc) = fst acc + sum_list (map g xs)"
  by (induction xs arbitrary: acc) (simp_all add: add.assoc)

lemma forEachE_add:
  "(\<And>x a. x \<in> set xs \<Longrightarrow> body x a = Inr (a + g x))
     \<Longrightarrow> forEachE body xs acc = Inr (acc + sum_list (map g xs))"
  by (induction xs arbitrary: acc) (simp_all add: add.assoc)

lemma mapE_Inr_iff:
  "(mapE f xs = Inr ys) = (list_all2 (\<lambda>x y. f x = Inr y) xs ys)"
proof (induction xs arbitrary: ys)
  case Nil
  then show ?case by auto
next
  case (Cons x xs)
  show ?case
  proof (cases "f x")
    case (Inl e)
    then show ?thesis by (auto simp: list_all2_Cons1)
  next
    case (Inr y)
    show ?thesis
    proof (cases "mapE f xs")
      case (Inl e)
      with Cons Inr show ?thesis by (auto simp: list_all2_Cons1)
    next
      case r: (Inr zs)
      with Cons Inr show ?thesis by (auto simp: list_all2_Cons1)
    qed
  qed
qed

lemma mapE_total:
  "(\<And>x. x \<in> set xs \<Longrightarrow> \<exists>y. f x = Inr y) \<Longrightarrow> \<exists>ys. mapE f xs = Inr ys"
proof (induction xs)
  case Nil
  then show ?case by simp
next
  case (Cons x xs)
  then obtain y where "f x = Inr y" by auto
  moreover from Cons obtain ys where "mapE f xs = Inr ys" by auto
  ultimately show ?case by simp
qed

lemma mapE_map:
  assumes "\<And>x. x \<in> set xs \<Longrightarrow> \<exists>y. f x = Inr y \<and> h y = g x"
  shows "\<exists>ys. mapE f xs = Inr ys \<and> map h ys = map g xs"
  using assms
proof (induction xs)
  case Nil
  then show ?case by simp
next
  case (Cons x xs)
  then obtain y where "f x = Inr y" "h y = g x" by auto
  moreover from Cons obtain ys where "mapE f xs = Inr ys" "map h ys = map g xs" by auto
  ultimately show ?case by simp
qed

lemma list_all2_rightD:
  "list_all2 P xs ys \<Longrightarrow> y \<in> set ys \<Longrightarrow> \<exists>x\<in>set xs. P x y"
  by (induction rule: list_all2_induct) auto

lemma sum_list_const: "(\<Sum>x\<leftarrow>xs. (k::int)) = k * int (length xs)"
  by (induction xs) (simp_all add: algebra_simps)

lemma sum_list_pointwise_add:
  fixes f g h :: "'a \<Rightarrow> int"
  assumes "\<And>x. x \<in> set xs \<Longrightarrow> f x = g x + h x"
  shows "sum_list (map f xs) = sum_list (map g xs) + sum_list (map h xs)"
  using assms by (induction xs) (simp_all add: algebra_simps)

lemma sum_list_pointwise_eq:
  fixes f g :: "'a \<Rightarrow> int"
  assumes "\<And>x. x \<in> set xs \<Longrightarrow> f x = g x"
  shows "sum_list (map f xs) = sum_list (map g xs)"
  using assms by (induction xs) simp_all

lemma sum_list_pointwise_zero:
  fixes f :: "'a \<Rightarrow> int"
  assumes "\<And>x. x \<in> set xs \<Longrightarrow> f x = 0"
  shows "sum_list (map f xs) = 0"
  using assms by (induction xs) simp_all

lemma sum_list_pointwise_le:
  fixes f g :: "'a \<Rightarrow> int"
  assumes "\<And>x. x \<in> set xs \<Longrightarrow> f x \<le> g x"
  shows "sum_list (map f xs) \<le> sum_list (map g xs)"
  using assms by (induction xs) (simp_all add: add_mono)

lemma find_member: "find P xs = Some x \<Longrightarrow> x \<in> set xs"
  by (induction xs) (auto split: if_splits)

lemma remainingChildBody_fst:
  "fst (remainingChildBody A m M c acc) = fst acc + A * yearsCounted (age c) m M"
  by (simp add: remainingChildBody_def yearsCounted_def Let_def)

lemma fixedChildBody_fst:
  "fst (fixedChildBody freq A m M c acc) =
     fst acc + (if freq = once then (if calculateYearsFromCurrentAge (age c) m M > 0 then A else 0)
                else A * yearsCounted (age c) m M)"
  by (simp add: fixedChildBody_def yearsCounted_def Let_def)

lemma receivedChildBody_eq:
  "receivedChildBody A m M c acc = acc + A * yearsReceived (age c) m M"
  by (simp add: receivedChildBody_def yearsReceived_def Let_def)

lemma remainingBandBody_eq:
  "remainingBandBody c b acc = acc + bandAnnual b * yearsCounted (age c) (band_minAge b) (band_maxAge b)"
  by (simp add: remainingBandBody_def yearsCounted_def bandAnnual_def Let_def)

lemma maxBandBody_eq:
  "maxBandBody b acc = acc + bandAnnual b * (band_maxAge b - band_minAge b + 1)"
  by (simp add: maxBandBody_def bandAnnual_def Let_def)

lemma receivedBandBody_eq:
  "receivedBandBody c b acc = acc + bandAnnual b * bandYearsReceived (age c) b"
  by (simp add: receivedBandBody_def bandYearsReceived_def bandAnnual_def Let_def)

lemma forBands_Some:
  "(\<And>b a. body b a = a + g b) \<Longrightarrow>
   forBands (Some bs) body acc = Inr (acc + sum_list (map g bs))"
  by (simp add: forBands_def fold_add)

lemma wellFormed_variable:
  "wellFormedSubsidy s \<Longrightarrow> amount s = variable \<Longrightarrow> ageBasedAmounts s = Some (bandsOf s)"
  by (auto simp: wellFormedSubsidy_def bandsOf_def orDefault_def)

lemma tuitionCeilingRate_fixed:
  "amount s = fixed amt \<Longrightarrow>
   (case (limit_type (incomeLimit (conditions s)), limit_tiers (incomeLimit (conditions s))) of
      (limit_tiered, Some (tier0 # x)) \<Rightarrow> tier_amount tier0
    | _ \<Rightarrow> calculateAmountByFrequency amt (frequency s)) = tuitionCeilingRate s"
  by (simp add: tuitionCeilingRate_def annualOf_def
        split: IncomeLimitType.split option.split list.split)

lemma tuitionCurrentRate_fixed:
  "amount s = fixed amt \<Longrightarrow>
   (case (limit_type (incomeLimit (conditions s)), limit_tiers (incomeLimit (conditions s))) of
      (limit_tiered, Some tiers) \<Rightarrow>
        (case find (\<lambda>t. income < tier_threshold t) tiers of
           Some tier \<Rightarrow> tier_amount tier | None \<Rightarrow> 0)
    | _ \<Rightarrow> calculateAmountByFrequency amt (frequency s)) = tuitionCurrentRate s income"
  by (simp add: tuitionCurrentRate_def annualOf_def
        split: IncomeLimitType.split option.split)

section \<open>Age-interval arithmetic\<close>

text \<open>
  C2. For integers with \<open>minAge \<le> maxAge\<close>, \<open>calculateYearsFromCurrentAge\<close> is 0 above
  \<open>maxAge\<close>, the whole band length \<open>maxAge - minAge + 1\<close> at or below \<open>minAge\<close>, and
  \<open>maxAge - currentAge + 1\<close> inside the band; in particular it gives 9, 0 and 1 on
  (5,6,14), (15,6,14) and (14,6,14).
\<close>

theorem yearsFromCurrentAge_cases:
  assumes "minAge \<le> maxAge"
  shows "(currentAge > maxAge \<longrightarrow> calculateYearsFromCurrentAge currentAge minAge maxAge = 0)
       \<and> (currentAge \<le> minAge \<longrightarrow>
            calculateYearsFromCurrentAge currentAge minAge maxAge = maxAge - minAge + 1)
       \<and> (minAge < currentAge \<and> currentAge \<le> maxAge \<longrightarrow>
            calculateYearsFromCurrentAge currentAge minAge maxAge = maxAge - currentAge + 1)
       \<and> calculateYearsFromCurrentAge 5 6 14 = 9
       \<and> calculateYearsFromCurrentAge 15 6 14 = 0
       \<and> calculateYearsFromCurrentAge 14 6 14 = 1"
  using assms by (auto simp: calculateYearsFromCurrentAge_def Let_def)

theorem yearsFromCurrentAge_cases_witness:
  "(6::int) \<le> 14 \<and> calculateYearsFromCurrentAge 16 6 14 = 0
     \<and> calculateYearsFromCurrentAge 2 6 14 = 14 - 6 + 1
     \<and> calculateYearsFromCurrentAge 10 6 14 = 14 - 10 + 1"
  using yearsFromCurrentAge_cases [of 6 14 16] yearsFromCurrentAge_cases [of 6 14 2]
    yearsFromCurrentAge_cases [of 6 14 10]
  by simp

section \<open>Income eligibility\<close>

text \<open>
  C6. A policy whose income limit is tagged \<open>tiered\<close> survives \<open>filterByIncomeLimit\<close> exactly
  when it is in the input list and some tier of its list has a threshold strictly above
  the household income. With an empty or absent tier list it is dropped; the filter is a
  total function returning a list, so nothing is signalled.
\<close>

theorem tiered_income_filter:
  assumes "limit_type (incomeLimit (conditions s)) = limit_tiered"
  shows "(s \<in> set (filterByIncomeLimit subsidies income)) =
           (s \<in> set subsidies \<and>
            (\<exists>tier \<in> set (orDefault (limit_tiers (incomeLimit (conditions s))) []).
               income < tier_threshold tier))
         \<and> (limit_tiers (incomeLimit (conditions s)) = None
              \<or> limit_tiers (incomeLimit (conditions s)) = Some []
            \<longrightarrow> s \<notin> set (filterByIncomeLimit subsidies income))"
  using assms
  by (auto simp: filterByIncomeLimit_def incomeLimitCallback_def checkTieredIncomeLimit_def
        orDefault_def list_ex_iff Let_def split: option.splits)

theorem tiered_income_filter_witness:
  "limit_type (incomeLimit (conditions tuitionPolicy)) = limit_tiered
     \<and> limit_type (incomeLimit (conditions emptyTiersPolicy)) = limit_tiered
     \<and> tuitionPolicy \<in> set (filterByIncomeLimit [emptyTiersPolicy, tuitionPolicy] 5500000)
     \<and> tuitionPolicy \<notin> set (filterByIncomeLimit [emptyTiersPolicy, tuitionPolicy] 5900000)
     \<and> emptyTiersPolicy \<notin> set (filterByIncomeLimit [emptyTiersPolicy, tuitionPolicy] 0)"
  using tiered_income_filter [of tuitionPolicy "[emptyTiersPolicy, tuitionPolicy]" 5500000]
    tiered_income_filter [of tuitionPolicy "[emptyTiersPolicy, tuitionPolicy]" 5900000]
    tiered_income_filter [of emptyTiersPolicy "[emptyTiersPolicy, tuitionPolicy]" 0]
  by (simp add: tuitionPolicy_def emptyTiersPolicy_def orDefault_def)

section \<open>Double rounding\<close>

text \<open>
  Some values: the literals \<open>0.1\<close> and \<open>0.3\<close>, a tie that goes to the even mantissa in
  both directions, and the sum \<open>0.3 + 24 * 0.3\<close>, which is \<open>7.499999999999999\<close>.
\<close>

lemma toDouble_examples:
  "toDouble (1 / 10) = 3602879701896397 / 36028797018963968"
  "toDouble (3 / 10) = 5404319552844595 / 18014398509481984"
  "toDouble 9007199254740993 = 9007199254740992"
  "toDouble 9007199254740995 = 9007199254740996"
  "toDouble (- (3 / 10)) = - toDouble (3 / 10)"
  "mulDouble 24 (toDouble (3 / 10)) = 2026619832316723 / 281474976710656"
  "addDouble (toDouble (3 / 10)) (mulDouble 24 (toDouble (3 / 10)))
     = 8444249301319679 / 1125899906842624"
  by code_simp+

lemma roundEven_of_int [simp]: "roundEven (of_int n) = n"
  by (simp add: roundEven_def)

lemma roundEven_mono: "x \<le> y \<Longrightarrow> roundEven x \<le> roundEven y"
proof -
  assume xy: "x \<le> y"
  have fl: "\<lfloor>x\<rfloor> \<le> \<lfloor>y\<rfloor>" using xy by (rule floor_mono)
  show ?thesis
  proof (cases "\<lfloor>x\<rfloor> = \<lfloor>y\<rfloor>")
    case True
    then have "x - of_int \<lfloor>x\<rfloor> \<le> y - of_int \<lfloor>y\<rfloor>" using xy by simp
    with True show ?thesis
      by (auto simp: roundEven_def Let_def)
  next
    case False
    with fl have "\<lfloor>x\<rfloor> + 1 \<le> \<lfloor>y\<rfloor>" by simp
    moreover have "roundEven x \<le> \<lfloor>x\<rfloor> + 1" by (simp add: roundEven_def Let_def)
    moreover have "\<lfloor>y\<rfloor> \<le> roundEven y" by (simp add: roundEven_def Let_def)
    ultimately show ?thesis by linarith
  qed
qed

lemma floorLog2_bounds:
  assumes "0 < x"
  shows "2 powi floorLog2 x \<le> x" "x < 2 powi (floorLog2 x + 1)"
proof -
  show "2 powi floorLog2 x \<le> x"
  proof (cases "1 \<le> x")
    case True
    then have pos: "0 < \<lfloor>x\<rfloor>" by simp
    from bitlen_bounds [OF pos] have "2 ^ nat (bitlen \<lfloor>x\<rfloor> - 1) \<le> \<lfloor>x\<rfloor>" by simp
    then have "(of_int (2 ^ nat (bitlen \<lfloor>x\<rfloor> - 1)) :: rat) \<le> of_int \<lfloor>x\<rfloor>"
      by (simp only: of_int_le_iff)
    also have "\<dots> \<le> x" by simp
    finally have "(2::rat) ^ nat (bitlen \<lfloor>x\<rfloor> - 1) \<le> x" by simp
    moreover have "0 \<le> bitlen \<lfloor>x\<rfloor> - 1"
      using pos bitlen_bounds [OF pos] by (simp add: bitlen_alt_def)
    ultimately show ?thesis using True
      by (simp add: floorLog2_def power_int_def)
  next
    case False
    define y where "y = 1 / x"
    have y1: "1 < y" using False assms by (simp add: y_def)
    define n where "n = \<lceil>y\<rceil> - 1"
    have npos: "0 < n" using y1 by (simp add: n_def)
    from bitlen_bounds [OF npos] have "n < 2 ^ nat (bitlen n)" by simp
    then have "\<lceil>y\<rceil> \<le> 2 ^ nat (bitlen n)" by (simp add: n_def)
    then have "y \<le> of_int (2 ^ nat (bitlen n))" by (simp only: ceiling_le_iff)
    then have yle: "y \<le> 2 ^ nat (bitlen n)" by simp
    have "1 / 2 ^ nat (bitlen n) \<le> x"
    proof -
      from yle have "1 / x \<le> 2 ^ nat (bitlen n)" by (simp add: y_def)
      with assms show ?thesis by (simp add: field_simps)
    qed
    moreover have "1 \<le> bitlen n" using npos bitlen_bounds [OF npos] by (simp add: bitlen_alt_def)
    ultimately show ?thesis using False
      by (simp add: floorLog2_def power_int_def y_def n_def inverse_eq_divide power_one_over)
  qed
  show "x < 2 powi (floorLog2 x + 1)"
  proof (cases "1 \<le> x")
    case True
    then have pos: "0 < \<lfloor>x\<rfloor>" by simp
    from bitlen_bounds [OF pos] have "\<lfloor>x\<rfloor> < 2 ^ nat (bitlen \<lfloor>x\<rfloor>)" by simp
    then have "x < of_int (2 ^ nat (bitlen \<lfloor>x\<rfloor>))" by (simp only: floor_less_iff)
    then have "x < 2 ^ nat (bitlen \<lfloor>x\<rfloor>)" by simp
    moreover have "0 \<le> bitlen \<lfloor>x\<rfloor>" by (rule bitlen_nonneg)
    ultimately show ?thesis using True
      by (simp add: floorLog2_def power_int_def)
  next
    case False
    define y where "y = 1 / x"
    have y1: "1 < y" using False assms by (simp add: y_def)
    define n where "n = \<lceil>y\<rceil> - 1"
    have npos: "0 < n" using y1 by (simp add: n_def)
    have b1: "1 \<le> bitlen n" using npos bitlen_bounds [OF npos] by (simp add: bitlen_alt_def)
    from bitlen_bounds [OF npos] have "2 ^ nat (bitlen n - 1) \<le> n" by simp
    then have "2 ^ nat (bitlen n - 1) < \<lceil>y\<rceil>" by (simp add: n_def)
    then have "of_int (2 ^ nat (bitlen n - 1)) < y" by (simp only: less_ceiling_iff)
    then have ylt: "2 ^ nat (bitlen n - 1) < y" by simp
    have "x < 1 / 2 ^ nat (bitlen n - 1)"
    proof -
      from ylt have "2 ^ nat (bitlen n - 1) < 1 / x" by (simp add: y_def)
      with assms show ?thesis by (simp add: field_simps)
    qed
    moreover have "- bitlen n + 1 \<le> 0" using b1 by simp
    moreover have "nat (bitlen n - 1) = nat (- (- bitlen n + 1))" by simp
    ultimately show ?thesis using False b1
      by (auto simp: floorLog2_def power_int_def y_def n_def inverse_eq_divide power_one_over)
  qed
qed


lemma two_powi_pos: "0 < (2::rat) powi k"
  by (simp add: power_int_def)

lemma two_powi_mono: "a \<le> b \<Longrightarrow> (2::rat) powi a \<le> 2 powi b"
  by (rule power_int_increasing) simp_all

lemma two_powi_split: "(2::rat) powi (a + b) = 2 powi a * 2 powi b"
  by (rule power_int_add) simp

lemma floorLog2_mono:
  assumes "0 < x" "x \<le> y"
  shows "floorLog2 x \<le> floorLog2 y"
proof (rule ccontr)
  assume "\<not> floorLog2 x \<le> floorLog2 y"
  then have "floorLog2 y + 1 \<le> floorLog2 x" by simp
  then have "(2::rat) powi (floorLog2 y + 1) \<le> 2 powi floorLog2 x" by (rule two_powi_mono)
  also have "\<dots> \<le> x" using assms(1) by (rule floorLog2_bounds)
  also have "\<dots> \<le> y" by (rule assms(2))
  finally show False using floorLog2_bounds(2) [of y] assms by simp
qed

lemma toDouble_pos:
  assumes "0 < x"
  shows "toDouble x = of_int (roundEven (x / 2 powi (floorLog2 x - 52))) * 2 powi (floorLog2 x - 52)"
  using assms by (simp add: toDouble_def Let_def)

lemma toDouble_bounds:
  assumes "0 < x"
  shows "2 powi floorLog2 x \<le> toDouble x" "toDouble x \<le> 2 powi (floorLog2 x + 1)"
proof -
  define u where "u = (2::rat) powi (floorLog2 x - 52)"
  have u: "0 < u" unfolding u_def by (rule two_powi_pos)
  have lo: "2 powi floorLog2 x = 2 ^ 52 * u"
    unfolding u_def using two_powi_split [of 52 "floorLog2 x - 52"] by simp
  have "floorLog2 x + 1 = 53 + (floorLog2 x - 52)" by simp
  then have "(2::rat) powi (floorLog2 x + 1) = 2 powi (53 + (floorLog2 x - 52))" by (rule arg_cong)
  then have hi: "2 powi (floorLog2 x + 1) = 2 ^ 53 * u"
    unfolding u_def two_powi_split by simp
  have "2 ^ 52 * u \<le> x" using floorLog2_bounds(1) [OF assms] unfolding lo .
  then have "of_int (2 ^ 52) \<le> x / u"
    using u by (simp add: field_simps)
  then have "roundEven (of_int (2 ^ 52)) \<le> roundEven (x / u)" by (rule roundEven_mono)
  then have "2 ^ 52 \<le> roundEven (x / u)" by (simp only: roundEven_of_int)
  then have "(of_int (2 ^ 52) :: rat) \<le> of_int (roundEven (x / u))" by (simp only: of_int_le_iff)
  then have "2 ^ 52 * u \<le> of_int (roundEven (x / u)) * u"
    using u by simp
  then show "2 powi floorLog2 x \<le> toDouble x"
    by (simp add: toDouble_pos [OF assms] lo flip: u_def)
  have "x < 2 ^ 53 * u" using floorLog2_bounds(2) [OF assms] unfolding hi .
  then have "x / u \<le> of_int (2 ^ 53)"
    using u by (simp add: field_simps)
  then have "roundEven (x / u) \<le> roundEven (of_int (2 ^ 53))" by (rule roundEven_mono)
  then have "roundEven (x / u) \<le> 2 ^ 53" by (simp only: roundEven_of_int)
  then have "(of_int (roundEven (x / u)) :: rat) \<le> of_int (2 ^ 53)" by (simp only: of_int_le_iff)
  then have "of_int (roundEven (x / u)) * u \<le> 2 ^ 53 * u"
    using u by simp
  then show "toDouble x \<le> 2 powi (floorLog2 x + 1)"
    by (simp add: toDouble_pos [OF assms] hi flip: u_def)
qed

lemma toDouble_zero [simp]: "toDouble 0 = 0"
  by (simp add: toDouble_def)

lemma toDouble_mono:
  assumes "0 \<le> x" "x \<le> y"
  shows "toDouble x \<le> toDouble y"
proof (cases "x = 0")
  case True
  show ?thesis
  proof (cases "y = 0")
    case y0: True
    with True show ?thesis by simp
  next
    case False
    with assms True have "0 < y" by simp
    have "0 < (2::rat) powi floorLog2 y" by (rule two_powi_pos)
    also have "\<dots> \<le> toDouble y" using \<open>0 < y\<close> by (rule toDouble_bounds)
    finally show ?thesis using True by simp
  qed
next
  case False
  with assms have x: "0 < x" and y: "0 < y" by simp_all
  from floorLog2_mono [OF x assms(2)] consider "floorLog2 x = floorLog2 y"
    | "floorLog2 x + 1 \<le> floorLog2 y" by linarith
  then show ?thesis
  proof cases
    case 1
    define u where "u = (2::rat) powi (floorLog2 y - 52)"
    have u: "0 < u" unfolding u_def by (rule two_powi_pos)
    have "x / u \<le> y / u" using assms(2) u by (simp add: divide_right_mono)
    then have "roundEven (x / u) \<le> roundEven (y / u)" by (rule roundEven_mono)
    then have "(of_int (roundEven (x / u)) :: rat) * u \<le> of_int (roundEven (y / u)) * u"
      using u by simp
    then show ?thesis
      by (simp add: toDouble_pos [OF x] toDouble_pos [OF y] 1 flip: u_def)
  next
    case 2
    have "toDouble x \<le> 2 powi (floorLog2 x + 1)" using x by (rule toDouble_bounds)
    also have "\<dots> \<le> 2 powi floorLog2 y" using 2 by (rule two_powi_mono)
    also have "\<dots> \<le> toDouble y" using y by (rule toDouble_bounds)
    finally show ?thesis .
  qed
qed

lemma toDouble_nonneg: "0 \<le> x \<Longrightarrow> 0 \<le> toDouble x"
  using toDouble_mono [of 0 x] by simp


section \<open>Medical subsidy\<close>

lemma roundEven_error: "\<bar>of_int (roundEven y) - y\<bar> \<le> 1 / 2"
proof -
  have "of_int \<lfloor>y\<rfloor> \<le> y" "y < of_int \<lfloor>y\<rfloor> + 1" by linarith+
  then show ?thesis by (auto simp: roundEven_def Let_def)
qed

lemma toDouble_error:
  assumes "0 \<le> x"
  shows "\<bar>toDouble x - x\<bar> \<le> x / 2 ^ 53"
proof (cases "x = 0")
  case True
  then show ?thesis by simp
next
  case False
  with assms have x: "0 < x" by simp
  define u where "u = (2::rat) powi (floorLog2 x - 52)"
  have u: "0 < u" unfolding u_def by (rule two_powi_pos)
  have "2 powi floorLog2 x = 2 ^ 52 * u"
    unfolding u_def using two_powi_split [of 52 "floorLog2 x - 52"] by simp
  with floorLog2_bounds(1) [OF x] have lo: "2 ^ 52 * u \<le> x" by simp
  have "toDouble x - x = (of_int (roundEven (x / u)) - x / u) * u"
    using u by (simp add: toDouble_pos [OF x] field_simps flip: u_def)
  then have "\<bar>toDouble x - x\<bar> = \<bar>of_int (roundEven (x / u)) - x / u\<bar> * u"
    using u by (simp add: abs_mult)
  also have "\<dots> \<le> 1 / 2 * u"
    using u roundEven_error [of "x / u"] by (intro mult_right_mono) simp_all
  also have "\<dots> \<le> x / 2 ^ 53" using lo by simp
  finally show ?thesis .
qed

lemma medicalLoop_step:
  "a \<le> M \<Longrightarrow> medicalLoop data p M a t = medicalLoop data p M (a + 1) (medicalStep data p a t)"
  by (subst medicalLoop.simps) (simp add: medicalStep_def Let_def split: option.split)

lemma medicalLoop_done: "\<not> a \<le> M \<Longrightarrow> medicalLoop data p M a t = t"
  by (subst medicalLoop.simps) simp

lemma getAssistanceAge_18: "getAssistanceAge p = 18"
  by (cases p) (simp_all add: getAssistanceAge_def)

lemma getAssistanceRate_cases: "getAssistanceRate p = 0 \<or> getAssistanceRate p = 1"
  by (cases p) (simp_all add: getAssistanceRate_def)

lemma toDouble_fifth: "toDouble (1 / 5) = 3602879701896397 / 18014398509481984"
  by code_simp

lemma toDouble_three_tenths: "toDouble (3 / 10) = 5404319552844595 / 18014398509481984"
  by code_simp

lemma getSelfPaymentRate_bounds:
  "0 \<le> getSelfPaymentRate a" "getSelfPaymentRate a \<le> 1"
  "\<bar>getSelfPaymentRate a - selfPayRate a\<bar> \<le> 1 / 2 ^ 54"
  by (simp_all add: getSelfPaymentRate_def selfPayRate_def toDouble_fifth toDouble_three_tenths)

lemma getSelfPaymentRate_nearest: "getSelfPaymentRate a = toDouble (selfPayRate a)"
  by (simp add: getSelfPaymentRate_def selfPayRate_def)

lemma cost_nonneg:
  "nonNegativeCosts data \<Longrightarrow> getMedicalCostByAge data a = Some c \<Longrightarrow> 0 \<le> annualCost c"
  by (auto simp: getMedicalCostByAge_def nonNegativeCosts_def list_all_iff dest: find_member)

lemma medicalTerm_nonneg:
  assumes "0 \<le> c"
  shows "0 \<le> mulDouble (mulDouble (of_int c) (getSelfPaymentRate a)) (getAssistanceRate p)"
proof -
  have "0 \<le> of_int c * getSelfPaymentRate a"
    using assms getSelfPaymentRate_bounds(1) [of a] by simp
  then have "0 \<le> mulDouble (of_int c) (getSelfPaymentRate a)"
    unfolding mulDouble_def by (rule toDouble_nonneg)
  moreover have "0 \<le> getAssistanceRate p" using getAssistanceRate_cases [of p] by auto
  ultimately have "0 \<le> mulDouble (of_int c) (getSelfPaymentRate a) * getAssistanceRate p"
    by (rule mult_nonneg_nonneg)
  then show ?thesis
    unfolding mulDouble_def by (rule toDouble_nonneg)
qed

lemma medicalStep_mono:
  assumes "nonNegativeCosts data" "0 \<le> t" "t \<le> t'"
  shows "medicalStep data p a t \<le> medicalStep data p a t'"
proof (cases "getMedicalCostByAge data a")
  case None
  with assms show ?thesis by (simp add: medicalStep_def)
next
  case (Some c)
  from medicalTerm_nonneg [OF cost_nonneg [OF assms(1) Some], of a p] assms
  show ?thesis
    by (simp add: medicalStep_def Some addDouble_def toDouble_mono)
qed

lemma medicalStep_nonneg:
  assumes "nonNegativeCosts data" "0 \<le> t"
  shows "0 \<le> medicalStep data p a t"
proof (cases "getMedicalCostByAge data a")
  case None
  with assms show ?thesis by (simp add: medicalStep_def)
next
  case (Some c)
  from medicalTerm_nonneg [OF cost_nonneg [OF assms(1) Some], of a p] assms
  show ?thesis
    by (simp add: medicalStep_def Some addDouble_def toDouble_nonneg)
qed

lemma medicalLoop_mono:
  assumes "nonNegativeCosts data"
  shows "0 \<le> t \<Longrightarrow> t \<le> t' \<Longrightarrow> medicalLoop data p M a t \<le> medicalLoop data p M a t'"
proof (induction "nat (M + 1 - a)" arbitrary: a t t')
  case 0
  then have "\<not> a \<le> M" by simp
  with 0 show ?case by (simp add: medicalLoop_done)
next
  case (Suc n)
  then have le: "a \<le> M" and n: "n = nat (M + 1 - (a + 1))" by simp_all
  from Suc.hyps(1) [OF n medicalStep_nonneg [OF assms Suc.prems(1)]
      medicalStep_mono [OF assms Suc.prems]]
  show ?case by (simp add: medicalLoop_step [OF le])
qed

lemma medicalLoop_later:
  assumes "nonNegativeCosts data"
  shows "0 \<le> t \<Longrightarrow> a \<le> a' \<Longrightarrow> medicalLoop data p M a' 0 \<le> medicalLoop data p M a t"
proof (induction "nat (a' - a)" arbitrary: a t)
  case 0
  then have "a' = a" by simp
  with medicalLoop_mono [OF assms order_refl 0(2)] show ?case by simp
next
  case (Suc n)
  then have lt: "a + 1 \<le> a'" and n: "n = nat (a' - (a + 1))" by simp_all
  show ?case
  proof (cases "a \<le> M")
    case True
    from Suc.hyps(1) [OF n medicalStep_nonneg [OF assms Suc.prems(1)] lt]
    show ?thesis by (simp add: medicalLoop_step [OF True])
  next
    case False
    with lt have "\<not> a' \<le> M" by simp
    with False Suc.prems show ?thesis by (simp add: medicalLoop_done)
  qed
qed

lemma calculateMedicalSubsidy_mono:
  assumes "nonNegativeCosts data" "0 \<le> a" "a \<le> a'"
  shows "calculateMedicalSubsidy data a' p \<le> calculateMedicalSubsidy data a p"
proof (cases "a \<le> 18")
  case True
  have ge: "medicalLoop data p 18 a' 0 \<le> medicalLoop data p 18 a 0"
    using assms(3) by (intro medicalLoop_later [OF assms(1)]) simp_all
  then have le: "mathRound (medicalLoop data p 18 a' 0) \<le> mathRound (medicalLoop data p 18 a 0)"
    unfolding mathRound_def by (intro floor_mono) simp
  show ?thesis
  proof (cases "a' \<le> 18")
    case a': True
    with True assms le show ?thesis
      by (simp add: calculateMedicalSubsidy_def getAssistanceAge_18)
  next
    case False
    then have "medicalLoop data p 18 a' 0 = 0" by (simp add: medicalLoop_done)
    with ge have "0 \<le> medicalLoop data p 18 a 0" by simp
    then have "0 \<le> mathRound (medicalLoop data p 18 a 0)" by (simp add: mathRound_def)
    with False True assms show ?thesis
      by (simp add: calculateMedicalSubsidy_def getAssistanceAge_18)
  qed
next
  case False
  with assms show ?thesis by (simp add: calculateMedicalSubsidy_def)
qed

lemma sum_int_from:
  fixes f :: "int \<Rightarrow> rat"
  assumes "a \<le> M"
  shows "sum f {a..M} = f a + sum f {a + 1..M}"
proof -
  have "{a..M} = insert a {a + 1..M}" using assms by auto
  then show ?thesis by simp
qed

lemma cost_bounded:
  "boundedCosts data \<Longrightarrow> getMedicalCostByAge data a = Some c
     \<Longrightarrow> 0 \<le> annualCost c \<and> annualCost c \<le> 1000000000"
  by (auto simp: getMedicalCostByAge_def boundedCosts_def list_all_iff dest: find_member)

lemma selfPayRate_bounds: "0 \<le> selfPayRate a" "selfPayRate a \<le> 1"
  by (simp_all add: selfPayRate_def)

lemma toDouble_bounds2:
  assumes "0 \<le> x"
  shows "0 \<le> toDouble x" "toDouble x \<le> x + x / 9007199254740992"
    "x - x / 9007199254740992 \<le> toDouble x"
proof -
  show "0 \<le> toDouble x" using assms by (rule toDouble_nonneg)
  from toDouble_error [OF assms] have "\<bar>toDouble x - x\<bar> \<le> x / 9007199254740992" by simp
  then show "toDouble x \<le> x + x / 9007199254740992" "x - x / 9007199254740992 \<le> toDouble x"
    by linarith+
qed

lemma medicalStep_error:
  assumes costs: "boundedCosts data" and a: "0 \<le> a" "a \<le> 18"
    and t: "0 \<le> t" and e: "0 \<le> e" "e \<le> of_int a * 1000000000"
    and te: "\<bar>t - e\<bar> \<le> of_int a / 131072"
  shows "0 \<le> medicalStep data p a t
       \<and> 0 \<le> e + annualMedicalCost data a * selfPayRate a * getAssistanceRate p
       \<and> e + annualMedicalCost data a * selfPayRate a * getAssistanceRate p
           \<le> of_int (a + 1) * 1000000000
       \<and> \<bar>medicalStep data p a t
            - (e + annualMedicalCost data a * selfPayRate a * getAssistanceRate p)\<bar>
           \<le> of_int (a + 1) / 131072"
proof (cases "getMedicalCostByAge data a")
  case None
  have "0 \<le> (of_int a :: rat)" using a by simp
  with t e te show ?thesis
    by (simp add: medicalStep_def annualMedicalCost_def None)
next
  case (Some c)
  define A :: rat where "A = of_int a"
  define C :: rat where "C = of_int (annualCost c)"
  define r where "r = getSelfPaymentRate a"
  define q where "q = selfPayRate a"
  define x where "x = C * r"
  define P where "P = toDouble x"
  have A: "0 \<le> A" "A \<le> 18" "of_int (a + 1) = A + 1" using a by (simp_all add: A_def)
  have C: "0 \<le> C" "C \<le> 1000000000"
    using cost_bounded [OF costs Some] by (simp_all add: C_def)
  have r: "0 \<le> r" "r \<le> 1" "\<bar>r - q\<bar> \<le> 1 / 2 ^ 54"
    unfolding r_def q_def by (rule getSelfPaymentRate_bounds)+
  have q: "0 \<le> q" "q \<le> 1" unfolding q_def by (rule selfPayRate_bounds)+
  have x: "0 \<le> x" "x \<le> 1000000000"
    using C r mult_mono [of C 1000000000 r 1] by (simp_all add: x_def)
  have Cq: "0 \<le> C * q" "C * q \<le> 1000000000"
    using C q mult_mono [of C 1000000000 q 1] by simp_all
  have "\<bar>x - C * q\<bar> = C * \<bar>r - q\<bar>"
    using C by (simp add: x_def abs_mult flip: right_diff_distrib)
  also have "\<dots> \<le> 1000000000 * (1 / 2 ^ 54)"
    using C r by (intro mult_mono) simp_all
  finally have xq: "\<bar>x - C * q\<bar> \<le> 1000000000 / 18014398509481984" by simp
  have P: "0 \<le> P" "P \<le> x + x / 9007199254740992" "x - x / 9007199254740992 \<le> P"
    unfolding P_def using toDouble_bounds2 [OF x(1)] by simp_all
  have te2: "t - e \<le> A / 131072" "e - t \<le> A / 131072"
    using te unfolding A_def by linarith+
  have eA: "e \<le> A * 1000000000" using e(2) by (simp only: A_def)
  have "A * 1000000000 \<le> 18 * 1000000000" using A(2) by (rule mult_right_mono) simp
  with eA have eb: "e \<le> 18000000000" by simp
  have "A / 131072 \<le> 18 / 131072" using A(2) by (rule divide_right_mono) simp
  with te2(1) eb have tb: "t \<le> 18000000001" by linarith
  from getAssistanceRate_cases [of p] show ?thesis
  proof
    assume ar: "getAssistanceRate p = 0"
    have step: "medicalStep data p a t = toDouble t"
      by (simp add: medicalStep_def Some ar addDouble_def mulDouble_def)
    note tt = toDouble_bounds2 [OF t]
    have "t / 9007199254740992 \<le> 1 / 131072" using tb by simp
    with tt te2 have "toDouble t - e \<le> A / 131072 + 1 / 131072"
      "e - toDouble t \<le> A / 131072 + 1 / 131072" by linarith+
    then have "toDouble t - e \<le> (A + 1) / 131072" "e - toDouble t \<le> (A + 1) / 131072"
      by (simp_all add: add_divide_distrib)
    then have "\<bar>toDouble t - e\<bar> \<le> (A + 1) / 131072" by linarith
    moreover have "e \<le> (A + 1) * 1000000000" using eA A by (simp add: distrib_right)
    ultimately show ?thesis
      using tt(1) e(1) by (simp add: step ar A_def)
  next
    assume ar: "getAssistanceRate p = 1"
    define T where "T = toDouble P"
    have T: "0 \<le> T" "T \<le> P + P / 9007199254740992" "P - P / 9007199254740992 \<le> T"
      unfolding T_def using toDouble_bounds2 [OF P(1)] by simp_all
    have step: "medicalStep data p a t = toDouble (t + T)"
      by (simp add: medicalStep_def Some ar addDouble_def mulDouble_def T_def P_def x_def C_def r_def)
    have tm: "annualMedicalCost data a * selfPayRate a * getAssistanceRate p = C * q"
      by (simp add: annualMedicalCost_def Some ar C_def q_def)
    have tT: "0 \<le> t + T" using t T by simp
    note tt = toDouble_bounds2 [OF tT]
    have xq2: "x - C * q \<le> 1000000000 / 18014398509481984"
      "C * q - x \<le> 1000000000 / 18014398509481984"
      using xq by linarith+
    have xb: "x / 9007199254740992 \<le> 1000000000 / 9007199254740992"
      using x(2) by (rule divide_right_mono) simp
    with P x have Pb: "P \<le> 1000000001" "P - x \<le> 1000000000 / 9007199254740992"
      "x - P \<le> 1000000000 / 9007199254740992" by linarith+
    have "P / 9007199254740992 \<le> 1000000001 / 9007199254740992"
      using Pb(1) by (rule divide_right_mono) simp
    with T have Tb: "T \<le> 1000000002" "T - P \<le> 1000000001 / 9007199254740992"
      "P - T \<le> 1000000001 / 9007199254740992" using Pb(1) by linarith+
    have "t + T \<le> 19000000003" using tb Tb(1) by linarith
    then have "(t + T) / 9007199254740992 \<le> 19000000003 / 9007199254740992"
      by (rule divide_right_mono) simp
    with tt have sb: "toDouble (t + T) - (t + T) \<le> 19000000003 / 9007199254740992"
      "(t + T) - toDouble (t + T) \<le> 19000000003 / 9007199254740992" by linarith+
    have "toDouble (t + T) - (e + C * q) \<le> A / 131072 + 1 / 131072"
      "(e + C * q) - toDouble (t + T) \<le> A / 131072 + 1 / 131072"
      using sb Tb(2,3) Pb(2,3) xq2 te2 by linarith+
    then have "toDouble (t + T) - (e + C * q) \<le> (A + 1) / 131072"
      "(e + C * q) - toDouble (t + T) \<le> (A + 1) / 131072"
      by (simp_all add: add_divide_distrib)
    then have "\<bar>toDouble (t + T) - (e + C * q)\<bar> \<le> (A + 1) / 131072" by linarith
    moreover have "e + C * q \<le> (A + 1) * 1000000000"
      using eA Cq(2) by (simp add: distrib_right)
    moreover have "0 \<le> e + C * q" using e Cq by simp
    ultimately show ?thesis
      using tt(1) by (simp add: step tm A_def)
  qed
qed

lemma medicalLoop_error:
  assumes costs: "boundedCosts data"
  shows "0 \<le> a \<Longrightarrow> a \<le> 19 \<Longrightarrow> 0 \<le> t \<Longrightarrow> 0 \<le> e \<Longrightarrow> e \<le> of_int a * 1000000000
       \<Longrightarrow> \<bar>t - e\<bar> \<le> of_int a / 131072
       \<Longrightarrow> \<bar>medicalLoop data p 18 a t
            - (e + (\<Sum>k = a..18. annualMedicalCost data k * selfPayRate k * getAssistanceRate p))\<bar>
           \<le> 19 / 131072"
proof (induction "nat (19 - a)" arbitrary: a t e)
  case 0
  then have a: "a = 19" by simp
  with 0 show ?case by (simp add: medicalLoop_done)
next
  case (Suc n)
  then have le: "a \<le> 18" and n: "n = nat (19 - (a + 1))" by simp_all
  let ?f = "\<lambda>k. annualMedicalCost data k * selfPayRate k * getAssistanceRate p"
  from medicalStep_error [OF costs Suc.prems(1) le Suc.prems(3-6), of p]
  have s: "0 \<le> medicalStep data p a t" "0 \<le> e + ?f a" "e + ?f a \<le> of_int (a + 1) * 1000000000"
    "\<bar>medicalStep data p a t - (e + ?f a)\<bar> \<le> of_int (a + 1) / 131072"
    by blast+
  have "0 \<le> a + 1" "a + 1 \<le> 19" using Suc.prems(1) le by simp_all
  from Suc.hyps(1) [OF n this s]
  show ?case
    by (simp add: medicalLoop_step [OF le] sum_int_from [OF le] add.assoc)
qed

lemma medicalTerm_tenths:
  "\<exists>m::int. annualMedicalCost data k * selfPayRate k * getAssistanceRate p = of_int m / 10"
proof -
  obtain c :: int where c: "annualMedicalCost data k = of_int c"
  proof (cases "getMedicalCostByAge data k")
    case None
    then have "annualMedicalCost data k = of_int 0" by (simp add: annualMedicalCost_def)
    then show ?thesis by (rule that)
  next
    case (Some item)
    then have "annualMedicalCost data k = of_int (annualCost item)"
      by (simp add: annualMedicalCost_def)
    then show ?thesis by (rule that)
  qed
  obtain s :: int where s: "selfPayRate k = of_int s / 10"
  proof (cases "k \<le> 5")
    case True
    then have "selfPayRate k = of_int 2 / 10" by (simp add: selfPayRate_def)
    then show ?thesis by (rule that)
  next
    case False
    then have "selfPayRate k = of_int 3 / 10" by (simp add: selfPayRate_def)
    then show ?thesis by (rule that)
  qed
  obtain r :: int where r: "getAssistanceRate p = of_int r"
    using getAssistanceRate_cases [of p] by (metis of_int_0 of_int_1)
  have "annualMedicalCost data k * selfPayRate k * getAssistanceRate p = of_int (c * s * r) / 10"
    by (simp add: c s r)
  then show ?thesis ..
qed

lemma medicalSum_tenths: "\<exists>m::int. medicalSum data a p = of_int m / 10"
proof -
  from medicalTerm_tenths [of data _ p]
  obtain g :: "int \<Rightarrow> int" where
    g: "\<And>k. annualMedicalCost data k * selfPayRate k * getAssistanceRate p = of_int (g k) / 10"
    by metis
  have "medicalSum data a p = of_int (\<Sum>k = a..getAssistanceAge p. g k) / 10"
    by (simp add: medicalSum_def g sum_divide_distrib)
  then show ?thesis ..
qed

lemma round_near:
  fixes d s :: rat and m :: int
  assumes near: "\<bar>d - s\<bar> \<le> 1 / 20" and s: "s = of_int m / 10"
  shows "\<bar>of_int (mathRound d) - s\<bar> \<le> 1 / 2"
    and "frac s \<noteq> 1 / 2 \<Longrightarrow> mathRound d = round s"
proof -
  define n where "n = mathRound d"
  have n: "of_int n \<le> d + 1 / 2" "d + 1 / 2 < of_int n + 1"
    unfolding n_def mathRound_def by linarith+
  have ds: "d - s \<le> 1 / 20" "s - d \<le> 1 / 20" using near by linarith+
  have sm: "of_int m = 10 * s" by (simp add: s)
  have "10 * of_int n - 6 < (of_int m :: rat)" using n ds sm by linarith
  then have "of_int (10 * n - 6) < (of_int m :: rat)" by simp
  then have "10 * n - 6 < m" by (simp only: of_int_less_iff)
  then have lo: "10 * n - 5 \<le> m" by simp
  have "(of_int m :: rat) < 10 * of_int n + 6" using n ds sm by linarith
  then have "(of_int m :: rat) < of_int (10 * n + 6)" by simp
  then have "m < 10 * n + 6" by (simp only: of_int_less_iff)
  then have hi: "m \<le> 10 * n + 5" by simp
  have "(of_int (10 * n - 5) :: rat) \<le> of_int m" "(of_int m :: rat) \<le> of_int (10 * n + 5)"
    using lo hi by (simp_all only: of_int_le_iff)
  then have "10 * of_int n - 5 \<le> 10 * s" "10 * s \<le> 10 * of_int n + 5"
    unfolding sm [symmetric] by simp_all
  then have "\<bar>of_int n - s\<bar> \<le> 1 / 2" by linarith
  then show "\<bar>of_int (mathRound d) - s\<bar> \<le> 1 / 2" by (simp only: n_def)
  assume tie: "frac s \<noteq> 1 / 2"
  have "m \<noteq> 10 * n + 5"
  proof
    assume "m = 10 * n + 5"
    then have "s = of_int n + 1 / 2" by (simp add: s)
    then have "frac s = 1 / 2" by (simp add: frac_unique_iff)
    with tie show False ..
  qed
  moreover have "m \<noteq> 10 * n - 5"
  proof
    assume "m = 10 * n - 5"
    then have "s = of_int (n - 1) + 1 / 2" by (simp add: s)
    then have "frac s = 1 / 2" by (simp only: frac_unique_iff) simp
    with tie show False ..
  qed
  ultimately have "10 * n - 4 \<le> m" "m \<le> 10 * n + 4" using lo hi by simp_all
  then have "(of_int (10 * n - 4) :: rat) \<le> of_int m" "(of_int m :: rat) \<le> of_int (10 * n + 4)"
    by (simp_all only: of_int_le_iff)
  then have "10 * of_int n - 4 \<le> 10 * s" "10 * s \<le> 10 * of_int n + 4"
    unfolding sm [symmetric] by simp_all
  then have "of_int n \<le> s + 1 / 2" "s + 1 / 2 < of_int n + 1"
    by linarith+
  then have "\<lfloor>s + 1 / 2\<rfloor> = n" by (simp add: floor_unique)
  then show "mathRound d = round s" by (simp add: round_def n_def)
qed

lemma calculateMedicalSubsidy_near:
  assumes "0 \<le> a" "a \<le> 18" "boundedCosts data"
  shows "calculateMedicalSubsidy data a p = mathRound (medicalLoop data p 18 a 0)"
    and "\<bar>medicalLoop data p 18 a 0 - medicalSum data a p\<bar> \<le> 1 / 20"
proof -
  show "calculateMedicalSubsidy data a p = mathRound (medicalLoop data p 18 a 0)"
    using assms by (simp add: calculateMedicalSubsidy_def getAssistanceAge_18)
  have "\<bar>medicalLoop data p 18 a 0 - (0 + medicalSum data a p)\<bar> \<le> 19 / 131072"
    unfolding medicalSum_def getAssistanceAge_18
    using assms by (intro medicalLoop_error) simp_all
  then show "\<bar>medicalLoop data p 18 a 0 - medicalSum data a p\<bar> \<le> 1 / 20" by simp
qed

text \<open>
  C8. For a current age from 0 to 18, every prefecture and annual costs between 0 and a
  billion yen, the result of \<open>calculateMedicalSubsidy\<close> is an integer nearest to the exact
  sum, over the ages from the current age to the assistance ceiling (18 everywhere), of
  annual cost times self-pay rate times assistance rate: it is at most 1/2 away from that
  sum, and it equals the sum rounded with \<open>Math.round\<close> unless the sum lies exactly halfway
  between two integers. The rates in the code are the doubles nearest to 20% (up to age 5)
  and 30% (from age 6); the assistance rate is 100% for Tokyo, Saitama and Chiba and 0%
  for Kanagawa.
\<close>

theorem medical_subsidy_formula:
  assumes "0 \<le> currentAge" "currentAge \<le> 18" "boundedCosts data"
  shows "\<bar>of_int (calculateMedicalSubsidy data currentAge p) - medicalSum data currentAge p\<bar> \<le> 1 / 2
       \<and> (frac (medicalSum data currentAge p) \<noteq> 1 / 2
            \<longrightarrow> calculateMedicalSubsidy data currentAge p = medicalSubsidyFormula data currentAge p)
       \<and> getSelfPaymentRate a = toDouble (if a \<le> 5 then 20 / 100 else 30 / 100)
       \<and> getAssistanceAge p = 18
       \<and> map getAssistanceRate [Tokyo, Saitama, Chiba, Kanagawa] = [100 / 100, 100 / 100, 100 / 100, 0]"
proof -
  obtain m :: int where m: "medicalSum data currentAge p = of_int m / 10"
    using medicalSum_tenths by blast
  note near = calculateMedicalSubsidy_near [OF assms, of p]
  have "\<bar>of_int (calculateMedicalSubsidy data currentAge p) - medicalSum data currentAge p\<bar> \<le> 1 / 2"
    unfolding near(1) by (rule round_near(1) [OF near(2) m])
  moreover have "calculateMedicalSubsidy data currentAge p = medicalSubsidyFormula data currentAge p"
    if "frac (medicalSum data currentAge p) \<noteq> 1 / 2"
    unfolding near(1) medicalSubsidyFormula_def by (rule round_near(2) [OF near(2) m that])
  moreover have "getSelfPaymentRate a = toDouble (if a \<le> 5 then 20 / 100 else 30 / 100)"
    by (simp add: getSelfPaymentRate_def)
  moreover have "map getAssistanceRate [Tokyo, Saitama, Chiba, Kanagawa]
      = [100 / 100, 100 / 100, 100 / 100, 0]"
    by (simp add: getAssistanceRate_def)
  ultimately show ?thesis by (simp add: getAssistanceAge_18)
qed

theorem medical_subsidy_formula_witness:
  "(0::int) \<le> 3 \<and> (3::int) \<le> 18 \<and> boundedCosts exampleCosts
     \<and> frac (medicalSum exampleCosts 3 Tokyo) \<noteq> 1 / 2
     \<and> medicalSum exampleCosts 3 Tokyo = 217504 / 5
     \<and> medicalSubsidyFormula exampleCosts 3 Tokyo = 43501
     \<and> calculateMedicalSubsidy exampleCosts 3 Tokyo = 43501"
proof -
  have b: "boundedCosts exampleCosts" by code_simp
  have s: "medicalSum exampleCosts 3 Tokyo = 217504 / 5" by code_simp
  have f: "frac (medicalSum exampleCosts 3 Tokyo) \<noteq> 1 / 2" by code_simp
  have r: "medicalSubsidyFormula exampleCosts 3 Tokyo = 43501" by code_simp
  from medical_subsidy_formula [of 3 exampleCosts Tokyo 3] b f
  have "calculateMedicalSubsidy exampleCosts 3 Tokyo = medicalSubsidyFormula exampleCosts 3 Tokyo"
    by simp
  with b s f r show ?thesis by simp
qed

text \<open>
  The code does not round the exact sum with \<open>Math.round\<close>: costs of 69843, 75095 and 63487
  yen at ages 16, 17 and 18 sum to 62527.5 yen of subsidy, which \<open>Math.round\<close> takes to
  62528, and the code returns 62527. Its result is not even a function of the exact sum:
  1 yen at age 6 with 24 yen at age 7, and 25 yen at age 6, both sum to 7.5, and the code
  returns 7 for the first and 8 for the second.
\<close>

theorem medical_subsidy_formula_counterexample:
  "calculateMedicalSubsidy teenCosts 16 Tokyo = 62527
     \<and> medicalSubsidyFormula teenCosts 16 Tokyo = 62528
     \<and> medicalSum splitCosts 6 Tokyo = 15 / 2 \<and> medicalSum singleCosts 6 Tokyo = 15 / 2
     \<and> calculateMedicalSubsidy splitCosts 6 Tokyo = 7
     \<and> calculateMedicalSubsidy singleCosts 6 Tokyo = 8"
proof -
  have "calculateMedicalSubsidy teenCosts 16 Tokyo = 62527" by code_simp
  moreover have "medicalSubsidyFormula teenCosts 16 Tokyo = 62528" by code_simp
  moreover have "medicalSum splitCosts 6 Tokyo = 15 / 2" by code_simp
  moreover have "medicalSum singleCosts 6 Tokyo = 15 / 2" by code_simp
  moreover have "calculateMedicalSubsidy splitCosts 6 Tokyo = 7" by code_simp
  moreover have "calculateMedicalSubsidy singleCosts 6 Tokyo = 8" by code_simp
  ultimately show ?thesis by simp
qed

section \<open>The loops of the engine compute the per-child sums\<close>

lemma calculateMaxMedicalExpenseSubsidy_sum:
  "calculateMaxMedicalExpenseSubsidy data s cs =
     (\<Sum>c\<leftarrow>filter (birthOrderCallback s) cs. calculateMedicalSubsidy data 0 (subsidy_prefecture s))"
  by (simp add: calculateMaxMedicalExpenseSubsidy_def Let_def
        fold_add [where g = "\<lambda>c. calculateMedicalSubsidy data 0 (subsidy_prefecture s)"])

lemma calculateMaxChildcareFeeSubsidy_sum:
  "amount s = fixed amt \<Longrightarrow> subsidy_type s = childcare_fee \<Longrightarrow>
   calculateMaxChildcareFeeSubsidy s cs =
     (\<Sum>c\<leftarrow>filter (birthOrderCallback s) cs. annualOf s * (maxAgeOf s - minAgeOf s + 1))"
  by (simp add: calculateMaxChildcareFeeSubsidy_def Let_def sum_list_const annualOf_def
        minAgeOf_def maxAgeOf_def)

lemma calculateMaxHighSchoolTuition_sum:
  "amount s = fixed amt \<Longrightarrow> subsidy_type s = high_school_tuition \<Longrightarrow>
   calculateMaxHighSchoolTuition s cs =
     (\<Sum>c\<leftarrow>filter (birthOrderCallback s) cs. tuitionCeilingRate s * (maxAgeOf s - minAgeOf s + 1))"
  by (simp add: calculateMaxHighSchoolTuition_def Let_def sum_list_const
        tuitionCeilingRate_def annualOf_def minAgeOf_def maxAgeOf_def
        split: IncomeLimitType.split option.split list.split)

lemma calculateMaxAmount_sum:
  assumes "wellFormedSubsidy s"
  shows "calculateMaxAmount data s cs = Inr (\<Sum>c\<leftarrow>ceilingEligible s cs. ceilingPerChild data s c)"
proof (cases "amount s")
  case variable
  have "forEachE (\<lambda>child acc.
            if subsidy_type s = childcare_allowance \<and> birthOrder child = third_or_more
            then (let annualAmount = CHILDCARE_ALLOWANCE_THIRD_CHILD_MONTHLY * 12
                  in Inr (acc + annualAmount * 19))
            else forBands (ageBasedAmounts s) maxBandBody acc) cs 0
        = Inr (0 + sum_list (map (ceilingPerChild data s) cs))"
    by (rule forEachE_add)
       (simp add: wellFormed_variable [OF assms variable] forBands_Some [OF maxBandBody_eq]
          ceilingPerChild_def variable CHILDCARE_ALLOWANCE_THIRD_CHILD_MONTHLY_def)
  then show ?thesis
    by (simp add: calculateMaxAmount_def isVariableAmountSubsidy_def variable ceilingEligible_def)
next
  case (fixed amt)
  consider (med) "subsidy_type s = medical_expense" | (fee) "subsidy_type s = childcare_fee"
    | (hs) "subsidy_type s = high_school_tuition"
    | (gen) "subsidy_type s \<noteq> medical_expense" "subsidy_type s \<noteq> childcare_fee"
        "subsidy_type s \<noteq> high_school_tuition"
    by blast
  then show ?thesis
  proof cases
    case med
    then show ?thesis
      by (simp add: calculateMaxAmount_def isVariableAmountSubsidy_def fixed ceilingEligible_def
            ceilingPerChild_def calculateMaxMedicalExpenseSubsidy_sum)
  next
    case fee
    then show ?thesis
      by (simp add: calculateMaxAmount_def isVariableAmountSubsidy_def fixed ceilingEligible_def
            ceilingPerChild_def calculateMaxChildcareFeeSubsidy_sum [OF fixed fee])
  next
    case hs
    then show ?thesis
      by (simp add: calculateMaxAmount_def isVariableAmountSubsidy_def fixed ceilingEligible_def
            ceilingPerChild_def calculateMaxHighSchoolTuition_sum [OF fixed hs])
  next
    case gen
    then show ?thesis
      by (simp add: calculateMaxAmount_def isVariableAmountSubsidy_def fixed ceilingEligible_def
            ceilingPerChild_def Let_def sum_list_const annualOf_def minAgeOf_def maxAgeOf_def)
  qed
qed

lemma calculateReceivedMedicalExpenseSubsidy_sum:
  "calculateReceivedMedicalExpenseSubsidy data s cs =
     (\<Sum>c\<leftarrow>filter (birthOrderCallback s) cs.
        if age c = 0 then 0
        else calculateMedicalSubsidy data 0 (subsidy_prefecture s)
             - calculateMedicalSubsidy data (age c) (subsidy_prefecture s))"
  by (simp add: calculateReceivedMedicalExpenseSubsidy_def Let_def
        fold_add [where g = "\<lambda>c. if age c = 0 then 0
             else calculateMedicalSubsidy data 0 (subsidy_prefecture s)
                  - calculateMedicalSubsidy data (age c) (subsidy_prefecture s)"])

lemma calculateReceivedChildcareFeeSubsidy_sum:
  "amount s = fixed amt \<Longrightarrow> subsidy_type s = childcare_fee \<Longrightarrow>
   calculateReceivedChildcareFeeSubsidy s cs =
     (\<Sum>c\<leftarrow>filter (birthOrderCallback s) cs.
        annualOf s * yearsReceived (age c) (minAgeOf s) (maxAgeOf s))"
  by (simp add: calculateReceivedChildcareFeeSubsidy_def Let_def annualOf_def
        minAgeOf_def maxAgeOf_def fold_add [OF receivedChildBody_eq])

lemma calculateReceivedHighSchoolTuition_sum:
  assumes "amount s = fixed amt" "subsidy_type s = high_school_tuition"
  shows "calculateReceivedHighSchoolTuition s cs =
     (\<Sum>c\<leftarrow>filter (birthOrderCallback s) cs.
        tuitionCeilingRate s * tuitionYearsReceived (age c) (minAgeOf s) (maxAgeOf s))"
proof -
  have m: "orDefault (cond_minAge (childCondition (conditions s))) 15 = minAgeOf s"
    using assms by (simp add: minAgeOf_def)
  have M: "orDefault (cond_maxAge (childCondition (conditions s))) 18 = maxAgeOf s"
    using assms by (simp add: maxAgeOf_def)
  show ?thesis
    unfolding calculateReceivedHighSchoolTuition_def assms(1) Amount.case Let_def m M
      tuitionCeilingRate_fixed [OF assms(1)]
    by (simp add: tuitionYearsReceived_def
          fold_add [where g = "\<lambda>c. tuitionCeilingRate s
                                 * tuitionYearsReceived (age c) (minAgeOf s) (maxAgeOf s)"])
qed

lemma calculateReceivedAmount_sum:
  assumes "wellFormedSubsidy s"
  shows "calculateReceivedAmount data s cs =
           Inr (\<Sum>c\<leftarrow>ceilingEligible s cs. receivedPerChild data s c)"
proof (cases "amount s")
  case variable
  have "forEachE (\<lambda>child acc.
            if age child = 0 then Inr acc
            else if subsidy_type s = childcare_allowance \<and> birthOrder child = third_or_more
            then (let annualAmount = CHILDCARE_ALLOWANCE_THIRD_CHILD_MONTHLY * 12
                  in Inr (acc + annualAmount * age child))
            else forBands (ageBasedAmounts s) (receivedBandBody child) acc) cs 0
        = Inr (0 + sum_list (map (receivedPerChild data s) cs))"
    by (rule forEachE_add)
       (simp add: wellFormed_variable [OF assms variable] forBands_Some [OF receivedBandBody_eq]
          receivedPerChild_def variable CHILDCARE_ALLOWANCE_THIRD_CHILD_MONTHLY_def)
  then show ?thesis
    by (simp add: calculateReceivedAmount_def isVariableAmountSubsidy_def variable
          ceilingEligible_def)
next
  case (fixed amt)
  consider (med) "subsidy_type s = medical_expense" | (fee) "subsidy_type s = childcare_fee"
    | (hs) "subsidy_type s = high_school_tuition"
    | (gen) "subsidy_type s \<noteq> medical_expense" "subsidy_type s \<noteq> childcare_fee"
        "subsidy_type s \<noteq> high_school_tuition"
    by blast
  then show ?thesis
  proof cases
    case med
    then show ?thesis
      by (simp add: calculateReceivedAmount_def isVariableAmountSubsidy_def fixed
            ceilingEligible_def receivedPerChild_def calculateReceivedMedicalExpenseSubsidy_sum)
  next
    case fee
    then show ?thesis
      by (simp add: calculateReceivedAmount_def isVariableAmountSubsidy_def fixed
            ceilingEligible_def receivedPerChild_def
            calculateReceivedChildcareFeeSubsidy_sum [OF fixed fee])
  next
    case hs
    then show ?thesis
      by (simp add: calculateReceivedAmount_def isVariableAmountSubsidy_def fixed
            ceilingEligible_def receivedPerChild_def
            calculateReceivedHighSchoolTuition_sum [OF fixed hs])
  next
    case gen
    have once: "int (length (filter (\<lambda>child. age child > maxAgeOf s) (filter (birthOrderCallback s) cs)))
                 * annualOf s
                = (\<Sum>c\<leftarrow>filter (birthOrderCallback s) cs. if age c > maxAgeOf s then annualOf s else 0)"
      by (induction cs) (simp_all add: algebra_simps)
    from gen show ?thesis
      by (simp add: calculateReceivedAmount_def isVariableAmountSubsidy_def fixed
            ceilingEligible_def receivedPerChild_def Let_def once [symmetric]
            fold_add [OF receivedChildBody_eq] mult.commute)
         (simp add: annualOf_def minAgeOf_def maxAgeOf_def fixed)
  qed
qed

lemma calculateMedicalExpenseSubsidy_sum:
  "result_amount (calculateMedicalExpenseSubsidy data s input) =
     (\<Sum>c\<leftarrow>filter (\<lambda>child. matchesChildCondition child (childCondition (conditions s)))
           (children input). calculateMedicalSubsidy data (age c) (subsidy_prefecture s))"
  by (simp add: calculateMedicalExpenseSubsidy_def Let_def
        fold_add [where g = "\<lambda>c. calculateMedicalSubsidy data (age c) (subsidy_prefecture s)"]
        split: list.split)

lemma calculateChildcareFeeSubsidy_sum:
  assumes "amount s = fixed amt" "subsidy_type s = childcare_fee"
  shows "\<exists>res. calculateChildcareFeeSubsidy s input = Inr res \<and> result_amount res =
     (\<Sum>c\<leftarrow>filter (\<lambda>child. matchesChildCondition child (childCondition (conditions s)))
           (children input). annualOf s * yearsCounted (age c) (minAgeOf s) (maxAgeOf s))"
proof -
  have m: "orDefault (cond_minAge (childCondition (conditions s))) 0 = minAgeOf s"
    using assms by (simp add: minAgeOf_def)
  have M: "orDefault (cond_maxAge (childCondition (conditions s))) 5 = maxAgeOf s"
    using assms by (simp add: maxAgeOf_def)
  have A: "calculateAmountByFrequency amt (frequency s) = annualOf s"
    using assms by (simp add: annualOf_def)
  show ?thesis
    unfolding calculateChildcareFeeSubsidy_def assms(1) Amount.case Let_def m M A
    by (simp add: fold_pair_add [OF remainingChildBody_fst] remainingChildBody_fst
          split: list.split)
qed

lemma calculateHighSchoolTuition_sum:
  assumes "amount s = fixed amt" "subsidy_type s = high_school_tuition"
  shows "\<exists>res. calculateHighSchoolTuition s input = Inr res \<and> result_amount res =
     (\<Sum>c\<leftarrow>filter (\<lambda>child. matchesChildCondition child (childCondition (conditions s)))
           (children input).
        tuitionCurrentRate s (householdIncome input)
          * yearsCounted (age c) (minAgeOf s) (maxAgeOf s))"
proof -
  have m: "orDefault (cond_minAge (childCondition (conditions s))) 15 = minAgeOf s"
    using assms by (simp add: minAgeOf_def)
  have M: "orDefault (cond_maxAge (childCondition (conditions s))) 18 = maxAgeOf s"
    using assms by (simp add: maxAgeOf_def)
  show ?thesis
    unfolding calculateHighSchoolTuition_def assms(1) Amount.case Let_def m M
      tuitionCurrentRate_fixed [OF assms(1)]
    by (simp add: fold_pair_add [OF remainingChildBody_fst] remainingChildBody_fst
          split: list.split)
qed

lemma calculateFixedAmount_sum:
  assumes "amount s = fixed amt"
  shows "\<exists>res. calculateFixedAmount data s input = Inr res \<and> result_amount res =
     (\<Sum>c\<leftarrow>currentEligible s (children input). currentPerChild data s (householdIncome input) c)"
proof -
  have nv: "amount s \<noteq> variable" using assms by simp
  consider (med) "subsidy_type s = medical_expense" | (fee) "subsidy_type s = childcare_fee"
    | (hs) "subsidy_type s = high_school_tuition"
    | (gen) "subsidy_type s \<noteq> medical_expense" "subsidy_type s \<noteq> childcare_fee"
        "subsidy_type s \<noteq> high_school_tuition"
    by blast
  then show ?thesis
  proof cases
    case med
    then show ?thesis
      by (simp add: calculateFixedAmount_def assms currentEligible_def currentPerChild_def
            calculateMedicalExpenseSubsidy_sum)
  next
    case fee
    with calculateChildcareFeeSubsidy_sum [OF assms fee, of input] show ?thesis
      by (simp add: calculateFixedAmount_def assms currentEligible_def currentPerChild_def)
  next
    case hs
    with calculateHighSchoolTuition_sum [OF assms hs, of input] show ?thesis
      by (simp add: calculateFixedAmount_def assms currentEligible_def currentPerChild_def)
  next
    case gen
    have m: "orDefault (cond_minAge (childCondition (conditions s))) 0 = minAgeOf s"
      using gen by (simp add: minAgeOf_def)
    have M: "orDefault (cond_maxAge (childCondition (conditions s))) 18 = maxAgeOf s"
      using gen by (simp add: maxAgeOf_def)
    have A: "calculateAmountByFrequency amt (frequency s) = annualOf s"
      using assms by (simp add: annualOf_def)
    have pc: "currentPerChild data s (householdIncome input) =
       (\<lambda>c. if frequency s = once
             then (if calculateYearsFromCurrentAge (age c) (minAgeOf s) (maxAgeOf s) > 0
                   then annualOf s else 0)
             else annualOf s * yearsCounted (age c) (minAgeOf s) (maxAgeOf s))"
      using gen nv by (auto simp: currentPerChild_def fun_eq_iff)
    show ?thesis
      unfolding calculateFixedAmount_def assms Amount.case Let_def m M A pc currentEligible_def
      using gen nv
      by (simp add: fold_pair_add [OF fixedChildBody_fst] fixedChildBody_fst assms
            split: list.split)
  qed
qed

lemma calculateVariable_sum:
  assumes "wellFormedSubsidy s" "amount s = variable"
  shows "(if subsidy_type s = childcare_allowance
          then calculateChildcareAllowance s cs else calculateVariableAmount s cs)
         = Inr (\<Sum>c\<leftarrow>cs. currentPerChild data s income c)"
proof -
  note bs = wellFormed_variable [OF assms]
  have 1: "subsidy_type s = childcare_allowance \<Longrightarrow>
           calculateChildcareAllowance s cs = Inr (0 + sum_list (map (currentPerChild data s income) cs))"
    unfolding calculateChildcareAllowance_def
    by (rule forEachE_add)
       (simp add: bs forBands_Some [OF remainingBandBody_eq] currentPerChild_def assms(2)
          CHILDCARE_ALLOWANCE_THIRD_CHILD_MONTHLY_def)
  have 2: "subsidy_type s \<noteq> childcare_allowance \<Longrightarrow>
           calculateVariableAmount s cs = Inr (0 + sum_list (map (currentPerChild data s income) cs))"
    unfolding calculateVariableAmount_def
    by (rule forEachE_add)
       (simp add: bs forBands_Some [OF remainingBandBody_eq] currentPerChild_def assms(2))
  from 1 2 show ?thesis by simp
qed

lemma calculateSubsidyAmount_sum:
  assumes "wellFormedSubsidy s"
  shows "\<exists>ap. calculateSubsidyAmount data s input = Inr ap \<and> policy ap = s
           \<and> calculatedAmount ap =
               (\<Sum>c\<leftarrow>currentEligible s (children input).
                  currentPerChild data s (householdIncome input) c)
           \<and> maxAmount ap = Some (\<Sum>c\<leftarrow>ceilingEligible s (children input). ceilingPerChild data s c)
           \<and> receivedAmount ap =
               Some (\<Sum>c\<leftarrow>ceilingEligible s (children input). receivedPerChild data s c)"
proof (cases "amount s")
  case (fixed amt)
  obtain res where "calculateFixedAmount data s input = Inr res" "result_amount res =
     (\<Sum>c\<leftarrow>currentEligible s (children input). currentPerChild data s (householdIncome input) c)"
    using calculateFixedAmount_sum [OF fixed] by blast
  then show ?thesis
    by (simp add: calculateSubsidyAmount_def isVariableAmountSubsidy_def fixed
          calculateMaxAmount_sum [OF assms] calculateReceivedAmount_sum [OF assms])
next
  case variable
  note v = calculateVariable_sum [OF assms variable, of "children input" data "householdIncome input"]
  note bs = wellFormed_variable [OF assms variable]
  show ?thesis
    unfolding calculateSubsidyAmount_def v
    by (simp add: isVariableAmountSubsidy_def variable bs Let_def currentEligible_def
          calculateMaxAmount_sum [OF assms] calculateReceivedAmount_sum [OF assms]
          split: list.split)
qed

lemma calculateSubsidyAmount_wellFormed:
  assumes "calculateSubsidyAmount data s input = Inr ap" "children input \<noteq> []"
  shows "wellFormedSubsidy s"
proof (rule ccontr)
  assume "\<not> wellFormedSubsidy s"
  then have v: "amount s = variable" and n: "ageBasedAmounts s = None"
    by (auto simp: wellFormedSubsidy_def)
  from assms(2) obtain c cs where cs: "children input = c # cs" by (cases "children input") auto
  from assms(1) show False
    unfolding calculateSubsidyAmount_def
    by (simp add: isVariableAmountSubsidy_def v n cs split: sum.splits)
qed

section \<open>The per-prefecture calculation\<close>

lemma loadPrefectureData_wf:
  assumes "wellFormedCatalog sd"
  shows "\<exists>d. loadPrefectureData sd p = Inr d \<and> list_all wellFormedSubsidy (policies d)"
proof -
  have "p \<in> set getAllPrefectures"
    by (cases p) (simp_all add: getAllPrefectures_def)
  with assms show ?thesis
    unfolding wellFormedCatalog_def list_all_iff
    by (fastforce split: sum.splits)
qed

lemma calculateSubsidies_totalAmount:
  assumes "list_all wellFormedSubsidy (policies d)" "loadPrefectureData sd p = Inr d"
  shows "\<exists>r. calculateSubsidies sd data now p input = Inr r
           \<and> totalAmount r =
               (\<Sum>s\<leftarrow>filterByChildConditions
                       (filterByIncomeLimit (policies d) (householdIncome input)) (children input).
                  \<Sum>c\<leftarrow>currentEligible s (children input).
                    currentPerChild data s (householdIncome input) c)"
proof -
  define ss where "ss = filterByChildConditions
      (filterByIncomeLimit (policies d) (householdIncome input)) (children input)"
  have wf: "\<And>s. s \<in> set ss \<Longrightarrow> wellFormedSubsidy s"
    using assms(1)
    by (auto simp: ss_def filterByChildConditions_def filterByIncomeLimit_def list_all_iff)
  have "\<exists>ys. mapE (\<lambda>s. calculateSubsidyAmount data s input) ss = Inr ys
          \<and> map calculatedAmount ys
              = map (\<lambda>s. \<Sum>c\<leftarrow>currentEligible s (children input).
                            currentPerChild data s (householdIncome input) c) ss"
  proof (rule mapE_map)
    fix s assume "s \<in> set ss"
    from calculateSubsidyAmount_sum [OF wf [OF this], where data = data and input = input]
    show "\<exists>y. calculateSubsidyAmount data s input = Inr y \<and>
              calculatedAmount y = (\<Sum>c\<leftarrow>currentEligible s (children input).
                            currentPerChild data s (householdIncome input) c)"
      by blast
  qed
  then obtain ys where ys: "mapE (\<lambda>s. calculateSubsidyAmount data s input) ss = Inr ys"
    "map calculatedAmount ys
              = map (\<lambda>s. \<Sum>c\<leftarrow>currentEligible s (children input).
                            currentPerChild data s (householdIncome input) c) ss"
    by blast
  have "fold (\<lambda>ap acc. acc + calculatedAmount ap) ys 0 = 0 + sum_list (map calculatedAmount ys)"
    by (rule fold_add) simp
  with ys assms(2) show ?thesis
    by (simp add: calculateSubsidies_def Let_def flip: ss_def)
qed

lemma calculateSubsidies_total:
  assumes "wellFormedCatalog sd"
  shows "\<exists>r. calculateSubsidies sd data now p input = Inr r"
proof -
  obtain d where "loadPrefectureData sd p = Inr d" "list_all wellFormedSubsidy (policies d)"
    using loadPrefectureData_wf [OF assms] by blast
  from calculateSubsidies_totalAmount [OF this(2,1)] show ?thesis by blast
qed

lemma calculateSubsidies_fields:
  "calculateSubsidies sd data now p input = Inr r \<Longrightarrow> rank r = 0 \<and> prefecture r = p"
  by (auto simp: calculateSubsidies_def Let_def split: sum.splits)

lemma child_filter_witness:
  "s \<in> set (filterByChildConditions ss cs) \<Longrightarrow>
   \<exists>c\<in>set cs. matchesChildCondition c (childCondition (conditions s))"
  by (auto simp: filterByChildConditions_def list_ex_iff)

lemma matches_is_birthOrder:
  assumes "matchesChildCondition c0 (childCondition (conditions s))"
  shows "matchesChildCondition c (childCondition (conditions s)) = birthOrderCallback s c"
  using assms
  by (auto simp: matchesChildCondition_def birthOrderCallback_def Let_def
        split: option.splits BirthOrderCondition.splits if_splits)

lemma matches_maxAge_nonneg:
  assumes "matchesChildCondition c0 (childCondition (conditions s))"
    and "subsidy_type s \<noteq> childcare_fee"
  shows "0 \<le> maxAgeOf s"
  using assms
  by (auto simp: matchesChildCondition_def maxAgeOf_def Let_def split: if_splits)

lemma eligible_coincide:
  assumes "matchesChildCondition c0 (childCondition (conditions s))"
  shows "currentEligible s cs = ceilingEligible s cs"
  by (simp add: currentEligible_def ceilingEligible_def matches_is_birthOrder [OF assms]
        cong: filter_cong)

lemma applied_policy_origin:
  assumes "calculateSubsidies sd data now p input = Inr r" "ap \<in> set (appliedPolicies r)"
  shows "\<exists>s c0. c0 \<in> set (children input)
           \<and> matchesChildCondition c0 (childCondition (conditions s))
           \<and> calculateSubsidyAmount data s input = Inr ap"
proof -
  from assms(1) obtain d where d: "loadPrefectureData sd p = Inr d"
    by (auto simp: calculateSubsidies_def split: sum.splits)
  define ss where "ss = filterByChildConditions
      (filterByIncomeLimit (policies d) (householdIncome input)) (children input)"
  from assms(1) d have "mapE (\<lambda>s. calculateSubsidyAmount data s input) ss = Inr (appliedPolicies r)"
    by (auto simp: calculateSubsidies_def Let_def ss_def split: sum.splits)
  then have "list_all2 (\<lambda>s y. calculateSubsidyAmount data s input = Inr y) ss (appliedPolicies r)"
    by (simp add: mapE_Inr_iff)
  from list_all2_rightD [OF this assms(2)]
  obtain s where s: "s \<in> set ss" "calculateSubsidyAmount data s input = Inr ap" by blast
  from child_filter_witness [OF s(1) [unfolded ss_def]] s(2) show ?thesis by blast
qed

lemma applied_policy_sums:
  assumes "calculateSubsidies sd data now p input = Inr r" "ap \<in> set (appliedPolicies r)"
  shows "\<exists>c0. c0 \<in> set (children input)
         \<and> matchesChildCondition c0 (childCondition (conditions (policy ap)))
         \<and> calculatedAmount ap =
               (\<Sum>c\<leftarrow>ceilingEligible (policy ap) (children input).
                  currentPerChild data (policy ap) (householdIncome input) c)
         \<and> maxAmount ap =
               Some (\<Sum>c\<leftarrow>ceilingEligible (policy ap) (children input).
                       ceilingPerChild data (policy ap) c)
         \<and> receivedAmount ap =
               Some (\<Sum>c\<leftarrow>ceilingEligible (policy ap) (children input).
                       receivedPerChild data (policy ap) c)"
proof -
  from applied_policy_origin [OF assms] obtain s c0 where
    c0: "c0 \<in> set (children input)" "matchesChildCondition c0 (childCondition (conditions s))"
    and ap: "calculateSubsidyAmount data s input = Inr ap" by blast
  from c0(1) have "children input \<noteq> []" by auto
  from calculateSubsidyAmount_wellFormed [OF ap this] have "wellFormedSubsidy s" .
  from calculateSubsidyAmount_sum [OF this, where data = data and input = input] ap c0
  show ?thesis
    by (auto simp: eligible_coincide [OF c0(2)])
qed

section \<open>High-school tuition: tier selection\<close>

text \<open>
  C7. For a high-school tuition policy with a tiered income limit and its tier list, the
  current entitlement is, per year counted, the amount of the first tier in list order
  whose threshold is strictly above the household income, and 0 when no tier is; the
  maximum entitlement is, per year of the band and per child of the right birth order, the
  amount of the first listed tier, whatever the household income.
\<close>

theorem tuition_tier_asymmetry:
  assumes "subsidy_type s = high_school_tuition" "amount s = fixed amt"
    and "limit_type (incomeLimit (conditions s)) = limit_tiered"
    and "limit_tiers (incomeLimit (conditions s)) = Some tiers"
  shows "\<exists>ap. calculateSubsidyAmount data s input = Inr ap
           \<and> calculatedAmount ap =
               (case find (\<lambda>t. householdIncome input < tier_threshold t) tiers of
                  Some tier \<Rightarrow> tier_amount tier | None \<Rightarrow> 0)
               * (\<Sum>c\<leftarrow>filter (\<lambda>child. matchesChildCondition child (childCondition (conditions s)))
                        (children input).
                    max 0 (calculateYearsFromCurrentAge (age c)
                             (orDefault (cond_minAge (childCondition (conditions s))) 15)
                             (orDefault (cond_maxAge (childCondition (conditions s))) 18)))
           \<and> (tiers \<noteq> [] \<longrightarrow>
                maxAmount ap =
                  Some (tier_amount (hd tiers)
                        * (orDefault (cond_maxAge (childCondition (conditions s))) 18
                           - orDefault (cond_minAge (childCondition (conditions s))) 15 + 1)
                        * int (length (filter (birthOrderCallback s) (children input)))))"
proof -
  have wf: "wellFormedSubsidy s" using assms(2) by (simp add: wellFormedSubsidy_def)
  have cur: "tuitionCurrentRate s (householdIncome input) =
               (case find (\<lambda>t. householdIncome input < tier_threshold t) tiers of
                  Some tier \<Rightarrow> tier_amount tier | None \<Rightarrow> 0)"
    unfolding tuitionCurrentRate_def assms(3,4) by simp
  have ceil: "tuitionCeilingRate s = tier_amount (hd tiers)" if "tiers \<noteq> []"
    using that unfolding tuitionCeilingRate_def assms(3,4) by (cases tiers) simp_all
  have m: "minAgeOf s = orDefault (cond_minAge (childCondition (conditions s))) 15"
    and M: "maxAgeOf s = orDefault (cond_maxAge (childCondition (conditions s))) 18"
    using assms(1) by (simp_all add: minAgeOf_def maxAgeOf_def)
  have pc: "currentPerChild data s (householdIncome input)
              = (\<lambda>c. tuitionCurrentRate s (householdIncome input)
                       * max 0 (calculateYearsFromCurrentAge (age c) (minAgeOf s) (maxAgeOf s)))"
    using assms(1,2) by (simp add: currentPerChild_def yearsCounted_def fun_eq_iff)
  have pm: "ceilingPerChild data s = (\<lambda>c. tuitionCeilingRate s * (maxAgeOf s - minAgeOf s + 1))"
    using assms(1,2) by (simp add: ceilingPerChild_def fun_eq_iff)
  from calculateSubsidyAmount_sum [OF wf, where data = data and input = input]
  obtain ap where ap: "calculateSubsidyAmount data s input = Inr ap"
    "calculatedAmount ap =
       (\<Sum>c\<leftarrow>currentEligible s (children input). currentPerChild data s (householdIncome input) c)"
    "maxAmount ap = Some (\<Sum>c\<leftarrow>ceilingEligible s (children input). ceilingPerChild data s c)"
    by blast
  show ?thesis
    by (rule exI [of _ ap])
       (simp add: ap pc pm cur m M currentEligible_def ceilingEligible_def assms(2)
          sum_list_const sum_list_const_mult ceil)
qed

theorem tuition_tier_asymmetry_witness:
  "subsidy_type tuitionPolicy = high_school_tuition \<and> amount tuitionPolicy = fixed 118800
     \<and> limit_type (incomeLimit (conditions tuitionPolicy)) = limit_tiered
     \<and> limit_tiers (incomeLimit (conditions tuitionPolicy))
         = Some [\<lparr>tier_threshold = 5000000, tier_amount = 200000\<rparr>,
                 \<lparr>tier_threshold = 5900000, tier_amount = 14000\<rparr>]
     \<and> (\<exists>ap. calculateSubsidyAmount exampleCosts tuitionPolicy (exampleInput 16) = Inr ap
            \<and> calculatedAmount ap = 42000 \<and> maxAmount ap = Some 800000)"
proof -
  have h: "subsidy_type tuitionPolicy = high_school_tuition" "amount tuitionPolicy = fixed 118800"
    "limit_type (incomeLimit (conditions tuitionPolicy)) = limit_tiered"
    "limit_tiers (incomeLimit (conditions tuitionPolicy))
       = Some [\<lparr>tier_threshold = 5000000, tier_amount = 200000\<rparr>,
               \<lparr>tier_threshold = 5900000, tier_amount = 14000\<rparr>]"
    by (simp_all add: tuitionPolicy_def)
  have c: "childCondition (conditions tuitionPolicy)
             = \<lparr>cond_minAge = Some 15, cond_maxAge = Some 18, cond_birthOrder = Some order_any\<rparr>"
    by (simp add: tuitionPolicy_def)
  have b: "birthOrderCallback tuitionPolicy = (\<lambda>c. True)"
    by (simp add: birthOrderCallback_def c fun_eq_iff)
  from tuition_tier_asymmetry [OF h, of exampleCosts "exampleInput 16"]
  have "\<exists>ap. calculateSubsidyAmount exampleCosts tuitionPolicy (exampleInput 16) = Inr ap
            \<and> calculatedAmount ap = 42000 \<and> maxAmount ap = Some 800000"
    unfolding c b
    by (simp add: exampleInput_def matchesChildCondition_def orDefault_def
          calculateYearsFromCurrentAge_def)
  with h show ?thesis by blast
qed

section \<open>The sentinel ``variable'' on a fixed-amount policy\<close>









section \<open>Conservation of the three amounts\<close>

lemma years_split:
  assumes "m \<le> M" "a \<noteq> 0"
  shows "yearsCounted a m M + yearsReceived a m M = M - m + 1"
  using assms
  by (auto simp: yearsCounted_def yearsReceived_def calculateYearsFromCurrentAge_def Let_def)

lemma tuition_years_split:
  assumes "m \<le> M" "a \<noteq> 0"
  shows "yearsCounted a m M + tuitionYearsReceived a m M = M - m + 1"
  using assms
  by (auto simp: yearsCounted_def tuitionYearsReceived_def calculateYearsFromCurrentAge_def Let_def)

lemma band_years_split:
  assumes "band_minAge b \<le> band_maxAge b"
  shows "yearsCounted a (band_minAge b) (band_maxAge b) + bandYearsReceived a b
           = band_maxAge b - band_minAge b + 1"
  using assms
  by (auto simp: yearsCounted_def bandYearsReceived_def calculateYearsFromCurrentAge_def Let_def)

lemma tuition_rates_agree:
  assumes "firstTierApplies s income"
    and "subsidy_type s = high_school_tuition" "amount s \<noteq> variable"
  shows "tuitionCurrentRate s income = tuitionCeilingRate s"
  using assms
  by (auto simp: firstTierApplies_def tuitionCurrentRate_def tuitionCeilingRate_def
        split: IncomeLimitType.splits option.splits list.splits if_splits)

lemma per_child_conservation:
  assumes age: "1 \<le> age c" "age c \<le> 18"
    and cont: "frequency s \<noteq> once"
    and bands: "orderedBands s"
    and tier: "firstTierApplies s income"
  shows "ceilingPerChild data s c = currentPerChild data s income c + receivedPerChild data s c"
proof (cases "amount s = variable")
  case True
  show ?thesis
  proof (cases "subsidy_type s = childcare_allowance \<and> birthOrder c = third_or_more")
    case third: True
    with True age show ?thesis
      by (simp add: ceilingPerChild_def currentPerChild_def receivedPerChild_def
            calculateYearsFromCurrentAge_def Let_def)
  next
    case False
    have "(\<Sum>b\<leftarrow>bandsOf s. bandAnnual b * (band_maxAge b - band_minAge b + 1))
          = (\<Sum>b\<leftarrow>bandsOf s. bandAnnual b * yearsCounted (age c) (band_minAge b) (band_maxAge b))
            + (\<Sum>b\<leftarrow>bandsOf s. bandAnnual b * bandYearsReceived (age c) b)"
    proof (rule sum_list_pointwise_add)
      fix b assume "b \<in> set (bandsOf s)"
      with bands True have "band_minAge b \<le> band_maxAge b"
        by (simp add: orderedBands_def list_all_iff)
      from band_years_split [OF this, of "age c"]
      show "bandAnnual b * (band_maxAge b - band_minAge b + 1)
            = bandAnnual b * yearsCounted (age c) (band_minAge b) (band_maxAge b)
              + bandAnnual b * bandYearsReceived (age c) b"
        by (simp flip: distrib_left)
    qed
    with True False age show ?thesis
      by (auto simp: ceilingPerChild_def currentPerChild_def receivedPerChild_def)
  qed
next
  case False
  have a0: "age c \<noteq> 0" using age by simp
  consider (med) "subsidy_type s = medical_expense" | (fee) "subsidy_type s = childcare_fee"
    | (hs) "subsidy_type s = high_school_tuition"
    | (gen) "subsidy_type s \<noteq> medical_expense" "subsidy_type s \<noteq> childcare_fee"
        "subsidy_type s \<noteq> high_school_tuition"
    by blast
  then show ?thesis
  proof cases
    case med
    with False a0 show ?thesis
      by (simp add: ceilingPerChild_def currentPerChild_def receivedPerChild_def)
  next
    case fee
    with bands False have "minAgeOf s \<le> maxAgeOf s" by (simp add: orderedBands_def)
    from years_split [OF this a0] fee False show ?thesis
      by (simp add: ceilingPerChild_def currentPerChild_def receivedPerChild_def
            flip: distrib_left)
  next
    case hs
    with bands False have "minAgeOf s \<le> maxAgeOf s" by (simp add: orderedBands_def)
    from tuition_years_split [OF this a0] hs False tuition_rates_agree [OF tier hs False]
    show ?thesis
      by (simp add: ceilingPerChild_def currentPerChild_def receivedPerChild_def
            flip: distrib_left)
  next
    case gen
    with bands False have "minAgeOf s \<le> maxAgeOf s" by (simp add: orderedBands_def)
    from years_split [OF this a0] gen False cont show ?thesis
      by (simp add: ceilingPerChild_def currentPerChild_def receivedPerChild_def
            flip: distrib_left)
  qed
qed

text \<open>
  C1 (amended). Take a household whose children are all aged 1 to 18 and an applied policy
  that \<open>calculateSubsidies\<close> returns for it. If the policy is not a one-time grant, its age
  band (each of its age bands) has \<open>minAge \<le> maxAge\<close>, and it is not a high-school tuition
  policy with a tiered income limit whose first tier the household income does not reach,
  then \<open>maxAmount = calculatedAmount + receivedAmount\<close>.
\<close>

theorem conservation_continuous:
  assumes "calculateSubsidies sd data now p input = Inr r"
    and "ap \<in> set (appliedPolicies r)"
    and "list_all (\<lambda>c. 1 \<le> age c \<and> age c \<le> 18) (children input)"
    and "frequency (policy ap) \<noteq> once"
    and "orderedBands (policy ap)"
    and "firstTierApplies (policy ap) (householdIncome input)"
  shows "\<exists>received. receivedAmount ap = Some received
           \<and> maxAmount ap = Some (calculatedAmount ap + received)"
proof -
  from applied_policy_sums [OF assms(1,2)] obtain c0 where
    sums: "calculatedAmount ap =
               (\<Sum>c\<leftarrow>ceilingEligible (policy ap) (children input).
                  currentPerChild data (policy ap) (householdIncome input) c)"
         "maxAmount ap =
               Some (\<Sum>c\<leftarrow>ceilingEligible (policy ap) (children input).
                       ceilingPerChild data (policy ap) c)"
         "receivedAmount ap =
               Some (\<Sum>c\<leftarrow>ceilingEligible (policy ap) (children input).
                       receivedPerChild data (policy ap) c)" by blast
  have sub: "set (ceilingEligible (policy ap) (children input)) \<subseteq> set (children input)"
    by (auto simp: ceilingEligible_def)
  have "(\<Sum>c\<leftarrow>ceilingEligible (policy ap) (children input). ceilingPerChild data (policy ap) c)
        = (\<Sum>c\<leftarrow>ceilingEligible (policy ap) (children input).
             currentPerChild data (policy ap) (householdIncome input) c)
          + (\<Sum>c\<leftarrow>ceilingEligible (policy ap) (children input).
               receivedPerChild data (policy ap) c)"
  proof (rule sum_list_pointwise_add)
    fix c assume "c \<in> set (ceilingEligible (policy ap) (children input))"
    with sub assms(3) have "1 \<le> age c" "age c \<le> 18" by (auto simp: list_all_iff)
    then show "ceilingPerChild data (policy ap) c
               = currentPerChild data (policy ap) (householdIncome input) c
                 + receivedPerChild data (policy ap) c"
      by (rule per_child_conservation [OF _ _ assms(4,5,6)])
  qed
  with sums show ?thesis by simp
qed

theorem conservation_continuous_witness:
  "calculateSubsidies exampleCatalog exampleCosts ''t'' Chiba (exampleInput 5)
     = Inr \<lparr>prefecture = Chiba, appliedPolicies = [allowanceApplied], totalAmount = 1680000,
            totalMaxAmount = 2460000, calculatedAt = ''t'', rank = 0\<rparr>
   \<and> list_all (\<lambda>c. 1 \<le> age c \<and> age c \<le> 18) (children (exampleInput 5))
   \<and> frequency (policy allowanceApplied) \<noteq> once
   \<and> orderedBands (policy allowanceApplied)
   \<and> firstTierApplies (policy allowanceApplied) (householdIncome (exampleInput 5))
   \<and> (\<exists>received. receivedAmount allowanceApplied = Some received
         \<and> maxAmount allowanceApplied = Some (calculatedAmount allowanceApplied + received))"
proof -
  have run: "calculateSubsidies exampleCatalog exampleCosts ''t'' Chiba (exampleInput 5)
     = Inr \<lparr>prefecture = Chiba, appliedPolicies = [allowanceApplied], totalAmount = 1680000,
            totalMaxAmount = 2460000, calculatedAt = ''t'', rank = 0\<rparr>"
    by code_simp
  have mem: "allowanceApplied
               \<in> set (appliedPolicies \<lparr>prefecture = Chiba, appliedPolicies = [allowanceApplied],
                    totalAmount = 1680000, totalMaxAmount = 2460000, calculatedAt = ''t'',
                    rank = 0\<rparr>)"
    by simp
  have ages: "list_all (\<lambda>c. 1 \<le> age c \<and> age c \<le> 18) (children (exampleInput 5))"
    by (simp add: exampleInput_def)
  have cont: "frequency (policy allowanceApplied) \<noteq> once"
    by (simp add: allowanceApplied_def allowancePolicy_def)
  have bands: "orderedBands (policy allowanceApplied)"
    by (simp add: allowanceApplied_def allowancePolicy_def orderedBands_def bandsOf_def
          orDefault_def)
  have tier: "firstTierApplies (policy allowanceApplied) (householdIncome (exampleInput 5))"
    by (simp add: allowanceApplied_def allowancePolicy_def firstTierApplies_def)
  from conservation_continuous [OF run mem ages cont bands tier] run ages cont bands tier
  show ?thesis by blast
qed

text \<open>
  C1 as stated fails: with an income of 5,500,000 the tuition policy pays the second
  tier (14000 a year) for the years to come, while the maximum is counted at the first
  tier (200000 a year). For a child of 10 the engine returns 800000 as the maximum, 56000
  as the remaining and 0 as the received amount.
\<close>

theorem conservation_continuous_counterexample:
  "calculateSubsidies exampleCatalog exampleCosts ''t'' Saitama (exampleInput 10)
     = Inr \<lparr>prefecture = Saitama, appliedPolicies = [tuitionApplied], totalAmount = 56000,
            totalMaxAmount = 800000, calculatedAt = ''t'', rank = 0\<rparr>
   \<and> frequency (policy tuitionApplied) \<noteq> once
   \<and> maxAmount tuitionApplied = Some 800000
   \<and> calculatedAmount tuitionApplied = 56000
   \<and> receivedAmount tuitionApplied = Some 0
   \<and> maxAmount tuitionApplied
       \<noteq> Some (calculatedAmount tuitionApplied + the (receivedAmount tuitionApplied))"
  by code_simp

section \<open>A household of newborns\<close>

lemma years_at_birth:
  assumes "0 \<le> m" "m \<le> M"
  shows "calculateYearsFromCurrentAge 0 m M = M - m + 1" "yearsCounted 0 m M = M - m + 1"
  using assms by (auto simp: yearsCounted_def calculateYearsFromCurrentAge_def Let_def)

lemma per_child_received_at_birth:
  assumes "age c = 0" "matchesChildCondition c0 (childCondition (conditions s))"
  shows "receivedPerChild data s c = 0"
proof -
  have "subsidy_type s \<noteq> childcare_fee \<Longrightarrow> \<not> maxAgeOf s < 0"
    using matches_maxAge_nonneg [OF assms(2)] by simp
  with assms(1) show ?thesis
    by (simp add: receivedPerChild_def yearsReceived_def tuitionYearsReceived_def
          bandYearsReceived_def)
qed

lemma per_child_ceiling_at_birth:
  assumes age: "age c = 0"
    and bands: "bandsFromBirth s"
    and tier: "firstTierApplies s income"
  shows "ceilingPerChild data s c = currentPerChild data s income c"
proof (cases "amount s = variable")
  case True
  have "(\<Sum>b\<leftarrow>bandsOf s. bandAnnual b * (band_maxAge b - band_minAge b + 1))
        = (\<Sum>b\<leftarrow>bandsOf s. bandAnnual b * yearsCounted (age c) (band_minAge b) (band_maxAge b))"
  proof (rule sum_list_pointwise_eq)
    fix b assume "b \<in> set (bandsOf s)"
    with bands True have "0 \<le> band_minAge b" "band_minAge b \<le> band_maxAge b"
      by (simp_all add: bandsFromBirth_def list_all_iff)
    then show "bandAnnual b * (band_maxAge b - band_minAge b + 1)
               = bandAnnual b * yearsCounted (age c) (band_minAge b) (band_maxAge b)"
      by (simp add: age years_at_birth)
  qed
  with True age show ?thesis
    by (auto simp: ceilingPerChild_def currentPerChild_def calculateYearsFromCurrentAge_def)
next
  case False
  consider (med) "subsidy_type s = medical_expense" | (fee) "subsidy_type s = childcare_fee"
    | (hs) "subsidy_type s = high_school_tuition"
    | (gen) "subsidy_type s \<noteq> medical_expense" "subsidy_type s \<noteq> childcare_fee"
        "subsidy_type s \<noteq> high_school_tuition"
    by blast
  then show ?thesis
  proof cases
    case med
    with False age show ?thesis
      by (simp add: ceilingPerChild_def currentPerChild_def)
  next
    case fee
    with bands False have "0 \<le> minAgeOf s" "minAgeOf s \<le> maxAgeOf s"
      by (simp_all add: bandsFromBirth_def)
    with fee False age show ?thesis
      by (simp add: ceilingPerChild_def currentPerChild_def years_at_birth)
  next
    case hs
    with bands False have "0 \<le> minAgeOf s" "minAgeOf s \<le> maxAgeOf s"
      by (simp_all add: bandsFromBirth_def)
    with hs False age tuition_rates_agree [OF tier hs False] show ?thesis
      by (simp add: ceilingPerChild_def currentPerChild_def years_at_birth)
  next
    case gen
    with bands False have "0 \<le> minAgeOf s" "minAgeOf s \<le> maxAgeOf s"
      by (simp_all add: bandsFromBirth_def)
    with gen False age show ?thesis
      by (simp add: ceilingPerChild_def currentPerChild_def years_at_birth)
  qed
qed

text \<open>
  C5 (amended). For a household whose children are all aged 0, every applied policy that
  \<open>calculateSubsidies\<close> returns has \<open>receivedAmount = 0\<close>; and it has
  \<open>maxAmount = calculatedAmount\<close> when its age band (each of its age bands) satisfies
  \<open>0 \<le> minAge \<le> maxAge\<close> and it is not a high-school tuition policy with a tiered income
  limit whose first tier the household income does not reach.
\<close>

theorem identity_at_birth:
  assumes "calculateSubsidies sd data now p input = Inr r"
    and "ap \<in> set (appliedPolicies r)"
    and "list_all (\<lambda>c. age c = 0) (children input)"
  shows "receivedAmount ap = Some 0
       \<and> (bandsFromBirth (policy ap) \<and> firstTierApplies (policy ap) (householdIncome input)
          \<longrightarrow> maxAmount ap = Some (calculatedAmount ap))"
proof -
  from applied_policy_sums [OF assms(1,2)] obtain c0 where
    c0: "matchesChildCondition c0 (childCondition (conditions (policy ap)))" and
    sums: "calculatedAmount ap =
               (\<Sum>c\<leftarrow>ceilingEligible (policy ap) (children input).
                  currentPerChild data (policy ap) (householdIncome input) c)"
         "maxAmount ap =
               Some (\<Sum>c\<leftarrow>ceilingEligible (policy ap) (children input).
                       ceilingPerChild data (policy ap) c)"
         "receivedAmount ap =
               Some (\<Sum>c\<leftarrow>ceilingEligible (policy ap) (children input).
                       receivedPerChild data (policy ap) c)" by blast
  have sub: "\<And>c. c \<in> set (ceilingEligible (policy ap) (children input)) \<Longrightarrow> age c = 0"
    using assms(3) by (auto simp: ceilingEligible_def list_all_iff split: if_splits)
  have "(\<Sum>c\<leftarrow>ceilingEligible (policy ap) (children input). receivedPerChild data (policy ap) c) = 0"
    by (rule sum_list_pointwise_zero) (simp add: per_child_received_at_birth [OF sub c0])
  moreover have "(\<Sum>c\<leftarrow>ceilingEligible (policy ap) (children input). ceilingPerChild data (policy ap) c)
        = (\<Sum>c\<leftarrow>ceilingEligible (policy ap) (children input).
             currentPerChild data (policy ap) (householdIncome input) c)"
    if "bandsFromBirth (policy ap)" "firstTierApplies (policy ap) (householdIncome input)"
    by (rule sum_list_pointwise_eq) (rule per_child_ceiling_at_birth [OF sub that])
  ultimately show ?thesis using sums by simp
qed

theorem identity_at_birth_witness:
  "calculateSubsidies exampleCatalog exampleCosts ''t'' Kanagawa (exampleInput 0)
     = Inr \<lparr>prefecture = Kanagawa, appliedPolicies = [grantApplied], totalAmount = 100000,
            totalMaxAmount = 100000, calculatedAt = ''t'', rank = 0\<rparr>
   \<and> list_all (\<lambda>c. age c = 0) (children (exampleInput 0))
   \<and> bandsFromBirth (policy grantApplied)
   \<and> firstTierApplies (policy grantApplied) (householdIncome (exampleInput 0))
   \<and> receivedAmount grantApplied = Some 0
   \<and> maxAmount grantApplied = Some (calculatedAmount grantApplied)"
proof -
  have run: "calculateSubsidies exampleCatalog exampleCosts ''t'' Kanagawa (exampleInput 0)
     = Inr \<lparr>prefecture = Kanagawa, appliedPolicies = [grantApplied], totalAmount = 100000,
            totalMaxAmount = 100000, calculatedAt = ''t'', rank = 0\<rparr>"
    by code_simp
  have mem: "grantApplied
               \<in> set (appliedPolicies \<lparr>prefecture = Kanagawa, appliedPolicies = [grantApplied],
                    totalAmount = 100000, totalMaxAmount = 100000, calculatedAt = ''t'',
                    rank = 0\<rparr>)"
    by simp
  have ages: "list_all (\<lambda>c. age c = 0) (children (exampleInput 0))"
    by (simp add: exampleInput_def)
  have bands: "bandsFromBirth (policy grantApplied)"
    by (simp add: grantApplied_def grantPolicy_def bandsFromBirth_def minAgeOf_def maxAgeOf_def
          orDefault_def)
  have tier: "firstTierApplies (policy grantApplied) (householdIncome (exampleInput 0))"
    by (simp add: grantApplied_def grantPolicy_def firstTierApplies_def)
  from identity_at_birth [OF run mem ages] run ages bands tier
  show ?thesis by blast
qed

text \<open>
  C5 as stated fails in its second half: for a newborn and an income of 5,500,000 the
  tuition policy has a maximum of 800000 (first tier) and a remaining amount of 56000
  (second tier).
\<close>

theorem identity_at_birth_counterexample:
  "calculateSubsidies exampleCatalog exampleCosts ''t'' Saitama (exampleInput 0)
     = Inr \<lparr>prefecture = Saitama, appliedPolicies = [tuitionApplied], totalAmount = 56000,
            totalMaxAmount = 800000, calculatedAt = ''t'', rank = 0\<rparr>
   \<and> age (hd (children (exampleInput 0))) = 0
   \<and> maxAmount tuitionApplied = Some 800000
   \<and> calculatedAmount tuitionApplied = 56000
   \<and> maxAmount tuitionApplied \<noteq> Some (calculatedAmount tuitionApplied)"
  by code_simp

section \<open>Monotonicity in the age of a single child\<close>

lemma frequency_nonneg: "0 \<le> amt \<Longrightarrow> 0 \<le> calculateAmountByFrequency amt freq"
  by (cases freq) (simp_all add: calculateAmountByFrequency_def)

lemma annualOf_nonneg: "nonNegativeSubsidy s \<Longrightarrow> 0 \<le> annualOf s"
  by (auto simp: nonNegativeSubsidy_def annualOf_def frequency_nonneg split: Amount.splits)

lemma bandAnnual_nonneg: "nonNegativeSubsidy s \<Longrightarrow> b \<in> set (bandsOf s) \<Longrightarrow> 0 \<le> bandAnnual b"
  by (auto simp: nonNegativeSubsidy_def bandAnnual_def list_all_iff frequency_nonneg)

lemma tuitionCurrentRate_nonneg:
  assumes "nonNegativeSubsidy s"
  shows "0 \<le> tuitionCurrentRate s income"
proof -
  have "0 \<le> tier_amount t"
    if "limit_tiers (incomeLimit (conditions s)) = Some ts"
       "find (\<lambda>t. income < tier_threshold t) ts = Some t" for ts t
    using assms that find_member [OF that(2)]
    by (auto simp: nonNegativeSubsidy_def orDefault_def list_all_iff)
  then show ?thesis
    using annualOf_nonneg [OF assms]
    by (auto simp: tuitionCurrentRate_def split: IncomeLimitType.splits option.splits)
qed

lemma yearsCounted_mono: "a \<le> a' \<Longrightarrow> yearsCounted a' m M \<le> yearsCounted a m M"
  by (auto simp: yearsCounted_def calculateYearsFromCurrentAge_def Let_def)

lemma years_positive_mono:
  "a \<le> a' \<Longrightarrow> 0 < calculateYearsFromCurrentAge a' m M \<Longrightarrow> 0 < calculateYearsFromCurrentAge a m M"
  by (auto simp: calculateYearsFromCurrentAge_def Let_def split: if_splits)

lemma per_child_mono:
  assumes nn: "nonNegativeSubsidy s" "nonNegativeCosts data"
    and ages: "0 \<le> a" "a \<le> a'"
  shows "currentPerChild data s income \<lparr>age = a', birthOrder = b\<rparr>
           \<le> currentPerChild data s income \<lparr>age = a, birthOrder = b\<rparr>"
proof (cases "amount s = variable")
  case True
  have "(\<Sum>x\<leftarrow>bandsOf s. bandAnnual x * yearsCounted a' (band_minAge x) (band_maxAge x))
        \<le> (\<Sum>x\<leftarrow>bandsOf s. bandAnnual x * yearsCounted a (band_minAge x) (band_maxAge x))"
    by (rule sum_list_pointwise_le)
       (simp add: mult_left_mono bandAnnual_nonneg [OF nn(1)] yearsCounted_mono [OF ages(2)])
  moreover have "calculateYearsFromCurrentAge a' 0 18 \<le> calculateYearsFromCurrentAge a 0 18"
    using ages by (auto simp: calculateYearsFromCurrentAge_def Let_def)
  ultimately show ?thesis
    using True by (simp add: currentPerChild_def)
next
  case False
  note A = annualOf_nonneg [OF nn(1)]
  note Y = yearsCounted_mono [OF ages(2)]
  have "annualOf s * yearsCounted a' (minAgeOf s) (maxAgeOf s)
          \<le> annualOf s * yearsCounted a (minAgeOf s) (maxAgeOf s)"
    by (rule mult_left_mono [OF Y A])
  moreover have "tuitionCurrentRate s income * yearsCounted a' (minAgeOf s) (maxAgeOf s)
          \<le> tuitionCurrentRate s income * yearsCounted a (minAgeOf s) (maxAgeOf s)"
    by (rule mult_left_mono [OF Y tuitionCurrentRate_nonneg [OF nn(1)]])
  moreover note calculateMedicalSubsidy_mono [OF nn(2) ages] years_positive_mono [OF ages(2)] A
  ultimately show ?thesis
    using False by (simp add: currentPerChild_def)
qed

lemma matches_age_independent:
  "matchesChildCondition \<lparr>age = a, birthOrder = b\<rparr> cond
     = matchesChildCondition \<lparr>age = a', birthOrder = b\<rparr> cond"
  by (simp add: matchesChildCondition_def split: option.split BirthOrderCondition.split)

lemma child_filter_age_independent:
  "filterByChildConditions ss [\<lparr>age = a, birthOrder = b\<rparr>]
     = filterByChildConditions ss [\<lparr>age = a', birthOrder = b\<rparr>]"
  by (simp add: filterByChildConditions_def matches_age_independent [of a b _ a'])

lemma single_child_current:
  "(\<Sum>c\<leftarrow>currentEligible s [\<lparr>age = a, birthOrder = b\<rparr>]. currentPerChild data s income c)
     = (if amount s = variable
           \<or> matchesChildCondition \<lparr>age = 0, birthOrder = b\<rparr> (childCondition (conditions s))
        then currentPerChild data s income \<lparr>age = a, birthOrder = b\<rparr> else 0)"
  by (simp add: currentEligible_def matches_age_independent [of a b _ 0])

text \<open>
  C4. For a catalog of non-negative amounts and costs, a prefecture, a household income and
  a birth order, the total of \<open>calculateSubsidies\<close> for a single child does not increase
  when the age of the child increases, from 0 upwards (so in particular along 0, 1, ..., 19).
\<close>

theorem totalAmount_monotone:
  assumes "wellFormedCatalog sd" "nonNegativeCatalog sd" "nonNegativeCosts data"
    and "0 \<le> a" "a \<le> a'"
  shows "\<exists>r r'. calculateSubsidies sd data now p
                   \<lparr>householdIncome = income, children = [\<lparr>age = a, birthOrder = b\<rparr>]\<rparr> = Inr r
               \<and> calculateSubsidies sd data now' p
                   \<lparr>householdIncome = income, children = [\<lparr>age = a', birthOrder = b\<rparr>]\<rparr> = Inr r'
               \<and> totalAmount r' \<le> totalAmount r"
proof -
  obtain d where d: "loadPrefectureData sd p = Inr d" "list_all wellFormedSubsidy (policies d)"
    using loadPrefectureData_wf [OF assms(1)] by blast
  have "p \<in> set getAllPrefectures"
    by (cases p) (simp_all add: getAllPrefectures_def)
  with assms(2) d(1) have nn: "\<And>s. s \<in> set (policies d) \<Longrightarrow> nonNegativeSubsidy s"
    by (auto simp: nonNegativeCatalog_def list_all_iff)
  define ss where "ss = filterByChildConditions (filterByIncomeLimit (policies d) income)
                          [\<lparr>age = a, birthOrder = b\<rparr>]"
  have ss': "filterByChildConditions (filterByIncomeLimit (policies d) income)
                          [\<lparr>age = a', birthOrder = b\<rparr>] = ss"
    unfolding ss_def by (rule child_filter_age_independent)
  have sub: "\<And>s. s \<in> set ss \<Longrightarrow> s \<in> set (policies d)"
    by (auto simp: ss_def filterByChildConditions_def filterByIncomeLimit_def)
  obtain r where r: "calculateSubsidies sd data now p
                   \<lparr>householdIncome = income, children = [\<lparr>age = a, birthOrder = b\<rparr>]\<rparr> = Inr r"
     "totalAmount r = (\<Sum>s\<leftarrow>ss. \<Sum>c\<leftarrow>currentEligible s [\<lparr>age = a, birthOrder = b\<rparr>].
                    currentPerChild data s income c)"
    using calculateSubsidies_totalAmount [OF d(2,1), of data now
        "\<lparr>householdIncome = income, children = [\<lparr>age = a, birthOrder = b\<rparr>]\<rparr>"]
    by (auto simp: ss_def)
  obtain r' where r': "calculateSubsidies sd data now' p
                   \<lparr>householdIncome = income, children = [\<lparr>age = a', birthOrder = b\<rparr>]\<rparr> = Inr r'"
     "totalAmount r' = (\<Sum>s\<leftarrow>ss. \<Sum>c\<leftarrow>currentEligible s [\<lparr>age = a', birthOrder = b\<rparr>].
                    currentPerChild data s income c)"
    using calculateSubsidies_totalAmount [OF d(2,1), of data now'
        "\<lparr>householdIncome = income, children = [\<lparr>age = a', birthOrder = b\<rparr>]\<rparr>"]
    by (auto simp: ss')
  have "totalAmount r' \<le> totalAmount r"
    unfolding r(2) r'(2) single_child_current
    by (rule sum_list_pointwise_le)
       (simp add: per_child_mono [OF nn [OF sub] assms(3,4,5)])
  with r(1) r'(1) show ?thesis by blast
qed

theorem totalAmount_monotone_witness:
  "wellFormedCatalog exampleCatalog \<and> nonNegativeCatalog exampleCatalog
     \<and> nonNegativeCosts exampleCosts \<and> (0::int) \<le> 5 \<and> (5::int) \<le> 16
     \<and> (\<exists>r r'. calculateSubsidies exampleCatalog exampleCosts ''t'' Tokyo
                   \<lparr>householdIncome = 5500000,
                    children = [\<lparr>age = 5, birthOrder = first_child\<rparr>]\<rparr> = Inr r
               \<and> calculateSubsidies exampleCatalog exampleCosts ''u'' Tokyo
                   \<lparr>householdIncome = 5500000,
                    children = [\<lparr>age = 16, birthOrder = first_child\<rparr>]\<rparr> = Inr r'
               \<and> totalAmount r' \<le> totalAmount r)"
proof -
  have wf: "wellFormedCatalog exampleCatalog"
    by code_simp
  have nn: "nonNegativeCatalog exampleCatalog"
    by code_simp
  have costs: "nonNegativeCosts exampleCosts"
    by code_simp
  have ages: "(0::int) \<le> 5" "(5::int) \<le> 16"
    by simp_all
  from totalAmount_monotone [OF wf nn costs ages] wf nn costs ages
  show ?thesis by blast
qed

section \<open>Ranking\<close>

lemma enumerate_rank_map:
  "map rank (map (\<lambda>(index, result). result\<lparr>rank := int index + 1\<rparr>) (enumerate n xs))
     = map int [Suc n..<Suc n + length xs]"
proof (induction xs arbitrary: n)
  case Nil
  then show ?case by simp
next
  case (Cons x xs)
  have "[Suc n..<Suc n + length (x # xs)] = Suc n # [Suc (Suc n)..<Suc (Suc n) + length xs]"
    by (simp add: upt_rec)
  with Cons [of "Suc n"] show ?case by simp
qed

lemma enumerate_rank_other:
  "map totalAmount (map (\<lambda>(index, result). result\<lparr>rank := int index + 1\<rparr>) (enumerate n xs))
     = map totalAmount xs"
  "map prefecture (map (\<lambda>(index, result). result\<lparr>rank := int index + 1\<rparr>) (enumerate n xs))
     = map prefecture xs"
  by (induction xs arbitrary: n) simp_all

lemma sorted_desc_sort_key:
  "sorted_wrt (\<lambda>a b. b \<le> a) (map totalAmount (sort_key (\<lambda>r. - totalAmount r) (xs :: CalculationResult list)))"
proof -
  have "sorted (map (\<lambda>r. - totalAmount r) (sort_key (\<lambda>r. - totalAmount r) xs))"
    by (rule sorted_sort_key)
  then show ?thesis
    by (simp add: sorted_wrt_map)
qed

lemma all_prefecture_results:
  assumes "wellFormedCatalog sd"
  shows "\<exists>ys. mapE (\<lambda>p. calculateSubsidies sd data (clock p) p input) getAllPrefectures = Inr ys
           \<and> length ys = 4 \<and> map prefecture ys = getAllPrefectures"
proof -
  have "\<exists>ys. mapE (\<lambda>p. calculateSubsidies sd data (clock p) p input) getAllPrefectures = Inr ys"
    by (intro mapE_total calculateSubsidies_total assms)
  then obtain ys where
    ys: "mapE (\<lambda>p. calculateSubsidies sd data (clock p) p input) getAllPrefectures = Inr ys" ..
  then have l2: "list_all2 (\<lambda>p r. calculateSubsidies sd data (clock p) p input = Inr r)
                   getAllPrefectures ys"
    by (simp add: mapE_Inr_iff)
  then have len: "length ys = 4"
    by (auto simp: getAllPrefectures_def dest: list_all2_lengthD)
  from l2 have "list_all2 (\<lambda>p r. prefecture r = p) getAllPrefectures ys"
    by (rule list_all2_mono) (simp add: calculateSubsidies_fields)
  then have "map prefecture ys = getAllPrefectures"
    by (induction rule: list_all2_induct) auto
  with ys len show ?thesis by blast
qed

lemma calculateAllSubsidies_total:
  assumes "wellFormedCatalog sd"
  shows "\<exists>rs. calculateAllSubsidies sd data clock input = Inr rs \<and> length rs = 4"
proof -
  from all_prefecture_results [OF assms] obtain ys where
    "mapE (\<lambda>p. calculateSubsidies sd data (clock p) p input) getAllPrefectures = Inr ys"
    "length ys = 4" by blast
  then show ?thesis
    by (simp add: calculateAllSubsidies_def)
qed

lemma calculateAllSubsidies_ranks:
  assumes "calculateAllSubsidies sd data clock input = Inr rs"
  shows "map rank rs = map int [1..<Suc (length rs)]"
proof -
  from assms obtain ys where
    rs: "rs = map (\<lambda>(index, result). result\<lparr>rank := int index + 1\<rparr>)
               (enumerate 0 (sort_key (\<lambda>r. - totalAmount r) ys))"
    by (auto simp: calculateAllSubsidies_def split: sum.splits)
  have "length rs = length (sort_key (\<lambda>r. - totalAmount r) ys)"
    unfolding rs by simp
  moreover have "map rank rs = map int [Suc 0..<Suc 0 + length (sort_key (\<lambda>r. - totalAmount r) ys)]"
    unfolding rs by (rule enumerate_rank_map)
  ultimately show ?thesis by simp
qed

lemma prefecture_result_origin:
  assumes "mapE (\<lambda>p. calculateSubsidies sd data (clock p) p input) ps = Inr ys" "y \<in> set ys"
  shows "calculateSubsidies sd data (clock (prefecture y)) (prefecture y) input = Inr y"
proof -
  from assms(1) have "list_all2 (\<lambda>p r. calculateSubsidies sd data (clock p) p input = Inr r) ps ys"
    by (simp add: mapE_Inr_iff)
  from list_all2_rightD [OF this assms(2)] obtain p where
    p: "calculateSubsidies sd data (clock p) p input = Inr y" by blast
  then have "prefecture y = p" by (simp add: calculateSubsidies_fields)
  with p show ?thesis by simp
qed

lemma enumerate_rank_set:
  assumes "r \<in> set (map (\<lambda>(index, result). result\<lparr>rank := int index + 1\<rparr>) (enumerate n xs))"
  shows "\<exists>y\<in>set xs. \<exists>k. r = y\<lparr>rank := k\<rparr>"
proof -
  from assms obtain i y where iy: "(i, y) \<in> set (enumerate n xs)"
    and r: "r = y\<lparr>rank := int i + 1\<rparr>" by auto
  from iy have "y \<in> set xs" by (auto simp: in_set_enumerate_eq)
  with r show ?thesis by blast
qed

text \<open>
  C3. On a well-formed catalog \<open>calculateAllSubsidies\<close> returns, for every input, a list
  with exactly one result for each prefecture of \<open>getAllPrefectures\<close>; each result is the
  one that \<open>calculateSubsidies\<close> computes for its prefecture, with the rank filled in; the
  ranks along the list are 1, 2, 3, 4; and the totals do not increase along the list.
\<close>

theorem calculateAll_ranking:
  assumes "wellFormedCatalog sd"
  shows "\<exists>rs. calculateAllSubsidies sd data clock input = Inr rs
           \<and> length rs = length getAllPrefectures
           \<and> mset (map prefecture rs) = mset getAllPrefectures
           \<and> list_all (\<lambda>r. calculateSubsidies sd data (clock (prefecture r)) (prefecture r) input
                             = Inr (r\<lparr>rank := 0\<rparr>)) rs
           \<and> map rank rs = [1, 2, 3, 4]
           \<and> sorted_wrt (\<lambda>a b. b \<le> a) (map totalAmount rs)"
proof -
  from all_prefecture_results [OF assms] obtain ys where
    ys: "mapE (\<lambda>p. calculateSubsidies sd data (clock p) p input) getAllPrefectures = Inr ys"
    and len: "length ys = 4" and prefs: "map prefecture ys = getAllPrefectures" by blast
  define sorted_results where "sorted_results = sort_key (\<lambda>r. - totalAmount r) ys"
  define rs where
    "rs = map (\<lambda>(index, result). result\<lparr>rank := int index + 1\<rparr>) (enumerate 0 sorted_results)"
  have res: "calculateAllSubsidies sd data clock input = Inr rs"
    using ys by (simp add: calculateAllSubsidies_def rs_def sorted_results_def)
  have "map prefecture rs = map prefecture sorted_results"
    unfolding rs_def by (rule enumerate_rank_other)
  moreover have "mset (map prefecture sorted_results) = mset (map prefecture ys)"
    unfolding sorted_results_def mset_map by simp
  ultimately have one_each: "mset (map prefecture rs) = mset getAllPrefectures"
    using prefs by simp
  have origin: "calculateSubsidies sd data (clock (prefecture r)) (prefecture r) input
                  = Inr (r\<lparr>rank := 0\<rparr>)" if "r \<in> set rs" for r
  proof -
    from that obtain y k where y: "y \<in> set sorted_results" and r: "r = y\<lparr>rank := k\<rparr>"
      unfolding rs_def by (blast dest: enumerate_rank_set)
    from y have "y \<in> set ys" by (simp add: sorted_results_def)
    from prefecture_result_origin [OF ys this]
    have run: "calculateSubsidies sd data (clock (prefecture y)) (prefecture y) input = Inr y" .
    then have "rank y = 0" by (simp add: calculateSubsidies_fields)
    then have "r\<lparr>rank := 0\<rparr> = y" by (simp add: r)
    with run show ?thesis by (simp add: r)
  qed
  then have each: "list_all (\<lambda>r. calculateSubsidies sd data (clock (prefecture r)) (prefecture r) input
                             = Inr (r\<lparr>rank := 0\<rparr>)) rs"
    by (simp add: list_all_iff)
  have "map rank rs = map int [Suc 0..<Suc 0 + length sorted_results]"
    unfolding rs_def by (rule enumerate_rank_map)
  then have ranks: "map rank rs = [1, 2, 3, 4]"
    using len by (simp add: sorted_results_def upt_rec)
  have "map totalAmount rs = map totalAmount sorted_results"
    unfolding rs_def by (rule enumerate_rank_other)
  then have desc: "sorted_wrt (\<lambda>a b. b \<le> a) (map totalAmount rs)"
    by (simp only: sorted_results_def sorted_desc_sort_key)
  have size: "length rs = length getAllPrefectures"
    using len by (simp add: rs_def sorted_results_def getAllPrefectures_def)
  show ?thesis
    by (rule exI [of _ rs]) (intro conjI res size one_each each ranks desc)
qed

theorem calculateAll_ranking_witness:
  "wellFormedCatalog exampleCatalog
     \<and> (\<exists>rs. calculateAllSubsidies exampleCatalog exampleCosts (\<lambda>p. ''t'') (exampleInput 5) = Inr rs
           \<and> length rs = length getAllPrefectures
           \<and> mset (map prefecture rs) = mset getAllPrefectures
           \<and> list_all (\<lambda>r. calculateSubsidies exampleCatalog exampleCosts ''t'' (prefecture r)
                               (exampleInput 5) = Inr (r\<lparr>rank := 0\<rparr>)) rs
           \<and> map rank rs = [1, 2, 3, 4]
           \<and> sorted_wrt (\<lambda>a b. b \<le> a) (map totalAmount rs))"
proof -
  have wf: "wellFormedCatalog exampleCatalog"
    by code_simp
  from calculateAll_ranking [OF wf, of exampleCosts "\<lambda>p. ''t''" "exampleInput 5"] wf
  show ?thesis by simp
qed

text \<open>
  C10. Whatever the prefecture and the input, a result of \<open>calculateSubsidies\<close> has rank 0
  (and on a well-formed catalog there is a result); the ranks of a result list of
  \<open>calculateAllSubsidies\<close> are 1, ..., N along the sorted list.
\<close>

theorem single_prefecture_rank_zero:
  "(calculateSubsidies sd data now p input = Inr r \<longrightarrow> rank r = 0)
   \<and> (wellFormedCatalog sd \<longrightarrow> (\<exists>r'. calculateSubsidies sd data now p input = Inr r'))
   \<and> (calculateAllSubsidies sd data clock input = Inr rs \<longrightarrow>
        map rank rs = map int [1..<Suc (length rs)])"
  using calculateSubsidies_fields [of sd data now p input r]
    calculateSubsidies_total [of sd data now p input]
    calculateAllSubsidies_ranks [of sd data clock input rs]
  by blast

theorem single_prefecture_rank_zero_witness:
  "calculateSubsidies exampleCatalog exampleCosts ''t'' Kanagawa (exampleInput 5)
     = Inr \<lparr>prefecture = Kanagawa, appliedPolicies = [grantAppliedLater], totalAmount = 0,
            totalMaxAmount = 100000, calculatedAt = ''t'', rank = 0\<rparr>
   \<and> wellFormedCatalog exampleCatalog
   \<and> (\<exists>r. calculateSubsidies exampleCatalog exampleCosts ''t'' Kanagawa (exampleInput 5) = Inr r
          \<and> rank r = 0)
   \<and> (\<exists>rs. calculateAllSubsidies exampleCatalog exampleCosts (\<lambda>p. ''t'') (exampleInput 5) = Inr rs
          \<and> map rank rs = [1, 2, 3, 4])"
proof -
  have run: "calculateSubsidies exampleCatalog exampleCosts ''t'' Kanagawa (exampleInput 5)
     = Inr \<lparr>prefecture = Kanagawa, appliedPolicies = [grantAppliedLater], totalAmount = 0,
            totalMaxAmount = 100000, calculatedAt = ''t'', rank = 0\<rparr>"
    by code_simp
  have wf: "wellFormedCatalog exampleCatalog"
    by code_simp
  from calculateAllSubsidies_total [OF wf] obtain rs where
    rs: "calculateAllSubsidies exampleCatalog exampleCosts (\<lambda>p. ''t'') (exampleInput 5) = Inr rs"
    and len: "length rs = 4" by blast
  note inst = single_prefecture_rank_zero [of exampleCatalog exampleCosts "''t''" Kanagawa
      "exampleInput 5" _ "\<lambda>p. ''t''" rs]
  from inst run have single: "\<exists>r. calculateSubsidies exampleCatalog exampleCosts ''t'' Kanagawa
                          (exampleInput 5) = Inr r \<and> rank r = 0"
    by (intro exI conjI) auto
  from inst rs len have "map rank rs = [1, 2, 3, 4]"
    by (simp add: upt_rec)
  with rs have every: "\<exists>rs. calculateAllSubsidies exampleCatalog exampleCosts (\<lambda>p. ''t'')
                           (exampleInput 5) = Inr rs \<and> map rank rs = [1, 2, 3, 4]"
    by (intro exI [of _ rs] conjI)
  show ?thesis
    by (intro conjI run wf single every)
qed

end
